theory Spec2Isabelle
  imports Main "HOL-Library.Sublist"
begin

section \<open>Go's strings package, as far as csp.go calls it\<close>

text \<open>
  A Go string is a sequence of bytes: \<^typ>\<open>string\<close>, one \<^typ>\<open>char\<close> per byte.
  An error value is modelled by its message (what \<open>err.Error()\<close> returns); a returned
  \<open>error\<close> is an \<open>error option\<close>, \<open>None\<close> being \<open>nil\<close>.
\<close>

type_synonym error = string

text \<open>
  \<open>strings.TrimSpace\<close> removes the leading and trailing white space runes of its argument, as
  Unicode defines them: six ASCII bytes, and the UTF-8 encodings of U+0085, U+00A0, U+1680,
  U+2000 to U+200A, U+2028, U+2029, U+202F, U+205F and U+3000. A byte sequence that is not one
  of these decodes to a rune that is no white space (an invalid one decodes to U+FFFD).
\<close>

definition asciiSpace :: "char \<Rightarrow> bool" where
  "asciiSpace c = (c = CHR 0x09 \<or> c = CHR 0x0A \<or> c = CHR 0x0B \<or> c = CHR 0x0C \<or> c = CHR 0x0D
     \<or> c = CHR '' '')"

definition unicodeSpace :: "string list" where
  "unicodeSpace =
    [ [CHR 0xC2, CHR 0x85], [CHR 0xC2, CHR 0xA0], [CHR 0xE1, CHR 0x9A, CHR 0x80],
     [CHR 0xE2, CHR 0x80, CHR 0x80], [CHR 0xE2, CHR 0x80, CHR 0x81], [CHR 0xE2, CHR 0x80, CHR 0x82],
     [CHR 0xE2, CHR 0x80, CHR 0x83], [CHR 0xE2, CHR 0x80, CHR 0x84], [CHR 0xE2, CHR 0x80, CHR 0x85],
     [CHR 0xE2, CHR 0x80, CHR 0x86], [CHR 0xE2, CHR 0x80, CHR 0x87], [CHR 0xE2, CHR 0x80, CHR 0x88],
     [CHR 0xE2, CHR 0x80, CHR 0x89], [CHR 0xE2, CHR 0x80, CHR 0x8A], [CHR 0xE2, CHR 0x80, CHR 0xA8],
     [CHR 0xE2, CHR 0x80, CHR 0xA9], [CHR 0xE2, CHR 0x80, CHR 0xAF], [CHR 0xE2, CHR 0x81, CHR 0x9F],
     [CHR 0xE3, CHR 0x80, CHR 0x80] ]"

text \<open>The number of bytes of the white space rune that \<open>s\<close> starts with, 0 when it starts with none.\<close>

definition firstSpace :: "string \<Rightarrow> nat" where
  "firstSpace s =
    (case s of
       [] \<Rightarrow> 0
     | c # _ \<Rightarrow>
         if asciiSpace c then 1
         else if 2 \<le> length s \<and> take 2 s \<in> set unicodeSpace then 2
         else if 3 \<le> length s \<and> take 3 s \<in> set unicodeSpace then 3
         else 0)"

text \<open>The same for the rune that \<open>s\<close> ends with.\<close>

definition lastSpace :: "string \<Rightarrow> nat" where
  "lastSpace s =
    (if s = [] then 0
     else if asciiSpace (last s) then 1
     else if 2 \<le> length s \<and> drop (length s - 2) s \<in> set unicodeSpace then 2
     else if 3 \<le> length s \<and> drop (length s - 3) s \<in> set unicodeSpace then 3
     else 0)"

function TrimLeft :: "string \<Rightarrow> string" where
  "TrimLeft s = (if firstSpace s = 0 then s else TrimLeft (drop (firstSpace s) s))"
  by pat_completeness auto
termination
proof (relation "measure length")
  show "wf (measure length)" by simp
next
  fix s :: string
  assume a: "firstSpace s \<noteq> 0"
  then have "s \<noteq> []" by (auto simp: firstSpace_def)
  with a show "(drop (firstSpace s) s, s) \<in> measure length" by simp
qed

function TrimRight :: "string \<Rightarrow> string" where
  "TrimRight s = (if lastSpace s = 0 then s else TrimRight (take (length s - lastSpace s) s))"
  by pat_completeness auto
termination
proof (relation "measure length")
  show "wf (measure length)" by simp
next
  fix s :: string
  assume a: "lastSpace s \<noteq> 0"
  then have "s \<noteq> []" by (auto simp: lastSpace_def)
  with a show "(take (length s - lastSpace s) s, s) \<in> measure length" by simp
qed

declare TrimLeft.simps [simp del]
declare TrimRight.simps [simp del]

definition TrimSpace :: "string \<Rightarrow> string" where
  "TrimSpace s = TrimRight (TrimLeft s)"

text \<open>\<open>strings.Join(elems, sep)\<close>.\<close>

fun Join :: "string list \<Rightarrow> string \<Rightarrow> string" where
  "Join [] sep = []"
| "Join [x] sep = x"
| "Join (x # y # ys) sep = x @ sep @ Join (y # ys) sep"

text \<open>
  \<open>strings.SplitN(s, sep, n)\<close> for a separator of one byte and \<open>n \<ge> 0\<close>, the only way csp.go
  calls it: at most \<open>n\<close> pieces, the last one the unsplit rest. \<open>strings.Split(s, sep)\<close> is the
  same without a bound on the pieces; of the empty string it returns the one piece \<open>""\<close>.
\<close>

fun SplitN :: "string \<Rightarrow> char \<Rightarrow> nat \<Rightarrow> string list" where
  "SplitN s sep 0 = []"
| "SplitN s sep (Suc 0) = [s]"
| "SplitN [] sep (Suc (Suc n)) = [ [] ]"
| "SplitN (c # cs) sep (Suc (Suc n)) =
     (if c = sep then [] # SplitN cs sep (Suc n)
      else (case SplitN cs sep (Suc (Suc n)) of
              [] \<Rightarrow> [ [c] ]
            | x # xs \<Rightarrow> (c # x) # xs))"

fun Split :: "string \<Rightarrow> char \<Rightarrow> string list" where
  "Split [] sep = [ [] ]"
| "Split (c # cs) sep =
     (if c = sep then [] # Split cs sep
      else (case Split cs sep of
              [] \<Rightarrow> [ [c] ]
            | x # xs \<Rightarrow> (c # x) # xs))"

text \<open>\<open>fmt.Sprintf("%s %s", a, b)\<close>.\<close>

definition Sprintf_s_s :: "string \<Rightarrow> string \<Rightarrow> string" where
  "Sprintf_s_s a b = a @ '' '' @ b"

section \<open>net/http, as far as the package uses it\<close>

text \<open>
  A response writer records the header map, whether the status line has been written, the
  status code (200 until one is written, as \<open>httptest.NewRecorder\<close> starts) and the body.
  \<open>Write\<close> on a writer whose status has not been written writes status 200 first;
  \<open>WriteHeader\<close> on a writer whose status has been written changes nothing (net/http logs a
  superfluous call). Content-type sniffing and the panic of \<open>WriteHeader\<close> for a code outside
  100..999 on a fresh writer are left out: no call of this package reaches the latter.
\<close>

record ResponseWriter =
  Header :: "string \<rightharpoonup> string list"
  wroteHeader :: bool
  Code :: int
  Body :: string

definition NewRecorder :: ResponseWriter where
  "NewRecorder = \<lparr>Header = Map.empty, wroteHeader = False, Code = 200, Body = []\<rparr>"

definition WriteHeader :: "ResponseWriter \<Rightarrow> int \<Rightarrow> ResponseWriter" where
  "WriteHeader w code = (if wroteHeader w then w else w\<lparr>wroteHeader := True, Code := code\<rparr>)"

definition Write :: "ResponseWriter \<Rightarrow> string \<Rightarrow> ResponseWriter" where
  "Write w b = (let w = (if wroteHeader w then w else WriteHeader w 200) in w\<lparr>Body := Body w @ b\<rparr>)"


text \<open>
  A request, as the handlers read it: its header map, and what \<open>ioutil.ReadAll(r.Body)\<close>
  returns, the bytes read and the error.
\<close>

record Request =
  ReqHeader :: "string \<rightharpoonup> string list"
  ReqBody :: "string \<times> error option"

definition Header_Get :: "(string \<rightharpoonup> string list) \<Rightarrow> string \<Rightarrow> string" where
  "Header_Get hdr key = (case hdr key of None \<Rightarrow> [] | Some [] \<Rightarrow> [] | Some (v # _) \<Rightarrow> v)"

type_synonym Handler = "ResponseWriter \<Rightarrow> Request \<Rightarrow> ResponseWriter"

definition StatusOK :: int where "StatusOK = 200"
definition StatusBadRequest :: int where "StatusBadRequest = 400"
definition StatusUnsupportedMediaType :: int where "StatusUnsupportedMediaType = 415"
definition StatusInternalServerError :: int where "StatusInternalServerError = 500"

section \<open>csp.go\<close>

definition HeaderReport :: string where "HeaderReport = ''Content-Security-Policy-Report''"
definition ReportContentType :: string where "ReportContentType = ''application/csp-report''"

definition SourceNone :: string where "SourceNone = '''none'' @ [CHR 0x27]"
definition SourceSelf :: string where "SourceSelf = '''self'' @ [CHR 0x27]"
definition SourceAny :: string where "SourceAny = ''*''"

definition childSrc :: string where "childSrc = ''child-src''"
definition connectSrc :: string where "connectSrc = ''connect-src''"
definition defaultSrc :: string where "defaultSrc = ''default-src''"
definition fontSrc :: string where "fontSrc = ''font-src''"
definition frameSrc :: string where "frameSrc = ''frame-src''"
definition imgSrc :: string where "imgSrc = ''img-src''"
definition manifestSrc :: string where "manifestSrc = ''manifest-src''"
definition mediaSrc :: string where "mediaSrc = ''media-src''"
definition objectSrc :: string where "objectSrc = ''object-src''"
definition scriptSrc :: string where "scriptSrc = ''script-src''"
definition styleSrc :: string where "styleSrc = ''style-src''"
definition workerSrc :: string where "workerSrc = ''worker-src''"
definition reportTo :: string where "reportTo = ''report-to''"

type_synonym SourceList = "string list"

text \<open>
  The policy. A nil and an empty source list are both the empty list. The wrapped handler
  \<open>h\<close> is \<open>None\<close> until \<open>Handler\<close> sets it.
\<close>

record CSP =
  ReportOnly :: bool
  ChildSrc :: SourceList
  ConnectSrc :: SourceList
  DefaultSrc :: SourceList
  FontSrc :: SourceList
  FrameSrc :: SourceList
  ImgSrc :: SourceList
  ManifestSrc :: SourceList
  MediaSrc :: SourceList
  ObjectSrc :: SourceList
  ScriptSrc :: SourceList
  StyleSrc :: SourceList
  WorkerSrc :: SourceList
  ReportTo :: string
  CSP_h :: "Handler option"

text \<open>The zero value \<open>CSP{}\<close>.\<close>

definition CSP_zero :: CSP where
  "CSP_zero = \<lparr>ReportOnly = False, ChildSrc = [], ConnectSrc = [], DefaultSrc = [], FontSrc = [],
     FrameSrc = [], ImgSrc = [], ManifestSrc = [], MediaSrc = [], ObjectSrc = [], ScriptSrc = [],
     StyleSrc = [], WorkerSrc = [], ReportTo = [], CSP_h = None\<rparr>"

definition NewSourceList :: "string list \<Rightarrow> SourceList" where
  "NewSourceList sources = map (\<lambda>v. v) sources"

definition Default :: CSP where
  "Default = CSP_zero\<lparr>DefaultSrc := NewSourceList [SourceNone], ScriptSrc := NewSourceList [SourceSelf],
     ConnectSrc := NewSourceList [SourceSelf], ImgSrc := NewSourceList [SourceSelf],
     StyleSrc := NewSourceList [SourceSelf]\<rparr>"

definition SourceList_MarshalText :: "SourceList \<Rightarrow> string \<times> error option" where
  "SourceList_MarshalText s = (Join s '' '', None)"

text \<open>The pointer receiver is overwritten: the new list is returned with the nil error.\<close>

definition SourceList_UnmarshalText :: "SourceList \<Rightarrow> string \<Rightarrow> SourceList \<times> error option" where
  "SourceList_UnmarshalText s text = (Split text CHR '' '', None)"

text \<open>The list \<open>policies\<close> that \<open>MarshalText\<close> builds, one append after the other.\<close>

definition MarshalText_policies :: "CSP \<Rightarrow> string list" where
  "MarshalText_policies c =
    (let policies = [];
         policies = (if length (DefaultSrc c) \<noteq> 0
                     then policies @ [Sprintf_s_s defaultSrc (fst (SourceList_MarshalText (DefaultSrc c)))]
                     else policies);
         policies = (if length (ChildSrc c) \<noteq> 0
                     then policies @ [Sprintf_s_s childSrc (fst (SourceList_MarshalText (ChildSrc c)))]
                     else policies);
         policies = (if length (ConnectSrc c) \<noteq> 0
                     then policies @ [Sprintf_s_s connectSrc (fst (SourceList_MarshalText (ConnectSrc c)))]
                     else policies);
         policies = (if length (FontSrc c) \<noteq> 0
                     then policies @ [Sprintf_s_s fontSrc (fst (SourceList_MarshalText (FontSrc c)))]
                     else policies);
         policies = (if length (FrameSrc c) \<noteq> 0
                     then policies @ [Sprintf_s_s frameSrc (fst (SourceList_MarshalText (FrameSrc c)))]
                     else policies);
         policies = (if length (ImgSrc c) \<noteq> 0
                     then policies @ [Sprintf_s_s imgSrc (fst (SourceList_MarshalText (ImgSrc c)))]
                     else policies);
         policies = (if length (ManifestSrc c) \<noteq> 0
                     then policies @ [Sprintf_s_s manifestSrc (fst (SourceList_MarshalText (ManifestSrc c)))]
                     else policies);
         policies = (if length (MediaSrc c) \<noteq> 0
                     then policies @ [Sprintf_s_s mediaSrc (fst (SourceList_MarshalText (MediaSrc c)))]
                     else policies);
         policies = (if length (ObjectSrc c) \<noteq> 0
                     then policies @ [Sprintf_s_s objectSrc (fst (SourceList_MarshalText (ObjectSrc c)))]
                     else policies);
         policies = (if length (ScriptSrc c) \<noteq> 0
                     then policies @ [Sprintf_s_s scriptSrc (fst (SourceList_MarshalText (ScriptSrc c)))]
                     else policies);
         policies = (if length (StyleSrc c) \<noteq> 0
                     then policies @ [Sprintf_s_s styleSrc (fst (SourceList_MarshalText (StyleSrc c)))]
                     else policies);
         policies = (if length (WorkerSrc c) \<noteq> 0
                     then policies @ [Sprintf_s_s workerSrc (fst (SourceList_MarshalText (WorkerSrc c)))]
                     else policies);
         policies = (if ReportTo c \<noteq> []
                     then policies @ [Sprintf_s_s reportTo (ReportTo c)]
                     else policies)
     in policies)"

definition MarshalText :: "CSP \<Rightarrow> string \<times> error option" where
  "MarshalText c = (TrimSpace (Join (MarshalText_policies c) ''; ''), None)"

text \<open>The \<open>switch k\<close> of \<open>UnmarshalText\<close>: the first case that equals \<open>k\<close>, none otherwise.\<close>

definition UnmarshalText_switch :: "CSP \<Rightarrow> string \<Rightarrow> string \<Rightarrow> CSP" where
  "UnmarshalText_switch c k v =
    (if k = childSrc then c\<lparr>ChildSrc := fst (SourceList_UnmarshalText (ChildSrc c) v)\<rparr>
     else if k = connectSrc then c\<lparr>ConnectSrc := fst (SourceList_UnmarshalText (ConnectSrc c) v)\<rparr>
     else if k = defaultSrc then c\<lparr>DefaultSrc := fst (SourceList_UnmarshalText (DefaultSrc c) v)\<rparr>
     else if k = fontSrc then c\<lparr>FontSrc := fst (SourceList_UnmarshalText (FontSrc c) v)\<rparr>
     else if k = frameSrc then c\<lparr>FrameSrc := fst (SourceList_UnmarshalText (FrameSrc c) v)\<rparr>
     else if k = imgSrc then c\<lparr>ImgSrc := fst (SourceList_UnmarshalText (ImgSrc c) v)\<rparr>
     else if k = manifestSrc then c\<lparr>ManifestSrc := fst (SourceList_UnmarshalText (ManifestSrc c) v)\<rparr>
     else if k = mediaSrc then c\<lparr>MediaSrc := fst (SourceList_UnmarshalText (MediaSrc c) v)\<rparr>
     else if k = objectSrc then c\<lparr>ObjectSrc := fst (SourceList_UnmarshalText (ObjectSrc c) v)\<rparr>
     else if k = scriptSrc then c\<lparr>ScriptSrc := fst (SourceList_UnmarshalText (ScriptSrc c) v)\<rparr>
     else if k = styleSrc then c\<lparr>StyleSrc := fst (SourceList_UnmarshalText (StyleSrc c) v)\<rparr>
     else if k = workerSrc then c\<lparr>WorkerSrc := fst (SourceList_UnmarshalText (WorkerSrc c) v)\<rparr>
     else if k = reportTo then c\<lparr>ReportTo := v\<rparr>
     else c)"

text \<open>The body of the loop over the segments: \<open>continue\<close> leaves the policy as it is.\<close>

definition UnmarshalText_segment :: "CSP \<Rightarrow> string \<Rightarrow> CSP" where
  "UnmarshalText_segment c p =
    (let l = SplitN (TrimSpace p) CHR '' '' 2 in
     if p = [] \<or> length l \<noteq> 2 then c
     else let k = TrimSpace (l ! 0); v = TrimSpace (l ! 1) in UnmarshalText_switch c k v)"

definition UnmarshalText :: "CSP \<Rightarrow> string \<Rightarrow> CSP \<times> error option" where
  "UnmarshalText c text =
    (let policies = Split text CHR '';'' in (foldl UnmarshalText_segment c policies, None))"

text \<open>\<open>Handler\<close> stores the handler to wrap and returns the policy, itself a handler.\<close>

definition Handler :: "CSP \<Rightarrow> Handler \<Rightarrow> CSP" where
  "Handler c h = c\<lparr>CSP_h := Some h\<rparr>"


section \<open>encoding/json, as far as the report handler uses it\<close>

text \<open>
  \<open>json.Unmarshal(body, &rep)\<close> first checks that the whole input is one JSON text (any value,
  with white space around it) and returns a syntax error otherwise, leaving \<open>rep\<close> alone; then
  it stores the value into the struct. The model reads the input into a value in two passes
  over the bytes and the tokens, and decodes the value. Arrays and objects nested deeper than
  \<open>maxNestingDepth\<close> are a syntax error, as in encoding/json. The messages of the errors of
  encoding/json are abbreviated to the error's type.
\<close>

datatype json =
    JNull
  | JBool bool
  | JNumber string
  | JString string
  | JArray "json list"
  | JObject "(string \<times> json) list"

datatype token =
    TLBrace | TRBrace | TLBrack | TRBrack | TColon | TComma
  | TString string | TNumber string | TLiteral string

definition byte :: "char \<Rightarrow> nat" where
  "byte c = of_char c"

definition isDigit :: "char \<Rightarrow> bool" where
  "isDigit c = (byte CHR ''0'' \<le> byte c \<and> byte c \<le> byte CHR ''9'')"

definition isLower :: "char \<Rightarrow> bool" where
  "isLower c = (byte CHR ''a'' \<le> byte c \<and> byte c \<le> byte CHR ''z'')"

definition isUpper :: "char \<Rightarrow> bool" where
  "isUpper c = (byte CHR ''A'' \<le> byte c \<and> byte c \<le> byte CHR ''Z'')"

text \<open>The number grammar: \<open>-? (0 | [1-9][0-9]*) (. [0-9]+)? ([eE] [+-]? [0-9]+)?\<close>.\<close>

definition valid_exponent :: "string \<Rightarrow> bool" where
  "valid_exponent s =
    (case s of
       [] \<Rightarrow> True
     | e # r \<Rightarrow>
         (e = CHR ''e'' \<or> e = CHR ''E'') \<and>
         (let ds = (case r of [] \<Rightarrow> [] | g # r' \<Rightarrow> if g = CHR ''+'' \<or> g = CHR ''-'' then r' else r)
          in ds \<noteq> [] \<and> list_all isDigit ds))"

definition valid_fraction :: "string \<Rightarrow> bool" where
  "valid_fraction s =
    (case s of
       [] \<Rightarrow> True
     | d # r \<Rightarrow>
         if d = CHR ''.'' then takeWhile isDigit r \<noteq> [] \<and> valid_exponent (dropWhile isDigit r)
         else valid_exponent s)"

definition valid_number :: "string \<Rightarrow> bool" where
  "valid_number s =
    (let u = (case s of [] \<Rightarrow> [] | g # r \<Rightarrow> if g = CHR ''-'' then r else s);
         ds = takeWhile isDigit u
     in (ds = ''0'' \<or> (ds \<noteq> [] \<and> hd ds \<noteq> CHR ''0'')) \<and> valid_fraction (dropWhile isDigit u))"

definition isNumberChar :: "char \<Rightarrow> bool" where
  "isNumberChar c = (isDigit c \<or> c = CHR ''.'' \<or> c = CHR ''e'' \<or> c = CHR ''E'' \<or> c = CHR ''+'' \<or> c = CHR ''-'')"

definition valid_literal :: "string \<Rightarrow> bool" where
  "valid_literal s = (s = ''true'' \<or> s = ''false'' \<or> s = ''null'')"

text \<open>
  The scanner, one byte at a time. Outside a token a byte is white space, punctuation or the
  first byte of a string, a number or a literal. A string token keeps the bytes between its
  quotes; a control byte in a string is an error.
\<close>

datatype lexmode = LTop | LString string | LEscape string | LNumber string | LLiteral string

definition lex_start :: "char \<Rightarrow> (token list \<times> lexmode) option" where
  "lex_start c =
    (if c = CHR '' '' \<or> c = CHR 0x09 \<or> c = CHR 0x0A \<or> c = CHR 0x0D then Some ([], LTop)
     else if c = CHR ''{'' then Some ([TLBrace], LTop)
     else if c = CHR ''}'' then Some ([TRBrace], LTop)
     else if c = CHR ''['' then Some ([TLBrack], LTop)
     else if c = CHR '']'' then Some ([TRBrack], LTop)
     else if c = CHR '':'' then Some ([TColon], LTop)
     else if c = CHR '','' then Some ([TComma], LTop)
     else if c = CHR 0x22 then Some ([], LString [])
     else if c = CHR ''-'' \<or> isDigit c then Some ([], LNumber [c])
     else if isLower c then Some ([], LLiteral [c])
     else None)"

fun lex :: "lexmode \<Rightarrow> string \<Rightarrow> token list option" where
  "lex LTop [] = Some []"
| "lex (LString acc) [] = None"
| "lex (LEscape acc) [] = None"
| "lex (LNumber acc) [] = (if valid_number acc then Some [TNumber acc] else None)"
| "lex (LLiteral acc) [] = (if valid_literal acc then Some [TLiteral acc] else None)"
| "lex LTop (c # cs) =
     (case lex_start c of
        None \<Rightarrow> None
      | Some (ts, m) \<Rightarrow> map_option ((@) ts) (lex m cs))"
| "lex (LString acc) (c # cs) =
     (if c = CHR 0x22 then map_option ((#) (TString acc)) (lex LTop cs)
      else if c = CHR 0x5C then lex (LEscape (acc @ [c])) cs
      else if byte c < 0x20 then None
      else lex (LString (acc @ [c])) cs)"
| "lex (LEscape acc) (c # cs) = lex (LString (acc @ [c])) cs"
| "lex (LNumber acc) (c # cs) =
     (if isNumberChar c then lex (LNumber (acc @ [c])) cs
      else if \<not> valid_number acc then None
      else (case lex_start c of
              None \<Rightarrow> None
            | Some (ts, m) \<Rightarrow> map_option ((@) (TNumber acc # ts)) (lex m cs)))"
| "lex (LLiteral acc) (c # cs) =
     (if isLower c then lex (LLiteral (acc @ [c])) cs
      else if \<not> valid_literal acc then None
      else (case lex_start c of
              None \<Rightarrow> None
            | Some (ts, m) \<Rightarrow> map_option ((@) (TLiteral acc # ts)) (lex m cs)))"

text \<open>
  The bytes of a string token become the string's value: an escape is replaced by what it
  stands for, a \<open>\u\<close> escape by the UTF-8 encoding of its code point (two escapes that are a
  surrogate pair by the encoding of the pair's code point, a lone surrogate by that of
  U+FFFD), and every byte that starts no valid UTF-8 sequence by the encoding of U+FFFD.
\<close>

definition hexval :: "char \<Rightarrow> nat option" where
  "hexval c =
    (if isDigit c then Some (byte c - byte CHR ''0'')
     else if byte CHR ''a'' \<le> byte c \<and> byte c \<le> byte CHR ''f'' then Some (byte c - byte CHR ''a'' + 10)
     else if byte CHR ''A'' \<le> byte c \<and> byte c \<le> byte CHR ''F'' then Some (byte c - byte CHR ''A'' + 10)
     else None)"

text \<open>\<open>getu4\<close> on the four bytes after \<open>\u\<close>.\<close>

definition hex4 :: "string \<Rightarrow> nat option" where
  "hex4 s =
    (case s of
       a # b # c # d # _ \<Rightarrow>
         (case (hexval a, hexval b, hexval c, hexval d) of
            (Some x, Some y, Some z, Some u) \<Rightarrow> Some (((x * 16 + y) * 16 + z) * 16 + u)
          | _ \<Rightarrow> None)
     | _ \<Rightarrow> None)"

definition getu4 :: "string \<Rightarrow> nat option" where
  "getu4 s =
    (case s of
       b # u # r \<Rightarrow> if b = CHR 0x5C \<and> u = CHR ''u'' then hex4 r else None
     | _ \<Rightarrow> None)"

definition RuneError :: nat where
  "RuneError = 0xFFFD"

definition IsSurrogate :: "nat \<Rightarrow> bool" where
  "IsSurrogate r = (0xD800 \<le> r \<and> r < 0xE000)"

text \<open>\<open>utf16.DecodeRune\<close>.\<close>

definition utf16_DecodeRune :: "nat \<Rightarrow> nat \<Rightarrow> nat" where
  "utf16_DecodeRune r1 r2 =
    (if 0xD800 \<le> r1 \<and> r1 < 0xDC00 \<and> 0xDC00 \<le> r2 \<and> r2 < 0xE000
     then (r1 - 0xD800) * 0x400 + (r2 - 0xDC00) + 0x10000
     else RuneError)"

text \<open>\<open>utf8.EncodeRune\<close>.\<close>

definition EncodeRune :: "nat \<Rightarrow> string" where
  "EncodeRune r =
    (if r < 0x80 then [char_of r]
     else if r < 0x800 then [char_of (0xC0 + r div 0x40), char_of (0x80 + r mod 0x40)]
     else if IsSurrogate r \<or> 0x10FFFF < r then [CHR 0xEF, CHR 0xBF, CHR 0xBD]
     else if r < 0x10000 then
       [char_of (0xE0 + r div 0x1000), char_of (0x80 + r div 0x40 mod 0x40), char_of (0x80 + r mod 0x40)]
     else
       [char_of (0xF0 + r div 0x40000), char_of (0x80 + r div 0x1000 mod 0x40),
        char_of (0x80 + r div 0x40 mod 0x40), char_of (0x80 + r mod 0x40)])"

text \<open>
  The length of the valid UTF-8 sequence that a string starts with, as \<open>utf8.DecodeRune\<close>
  accepts it; 0 when it starts with none.
\<close>

definition isCont :: "char \<Rightarrow> bool" where
  "isCont c = (0x80 \<le> byte c \<and> byte c \<le> 0xBF)"

definition utf8_width :: "string \<Rightarrow> nat" where
  "utf8_width s =
    (case s of
       [] \<Rightarrow> 0
     | a # r \<Rightarrow>
         if byte a < 0x80 then 1
         else if 0xC2 \<le> byte a \<and> byte a \<le> 0xDF then
           (case r of b # _ \<Rightarrow> if isCont b then 2 else 0 | _ \<Rightarrow> 0)
         else if 0xE0 \<le> byte a \<and> byte a \<le> 0xEF then
           (case r of
              b # c # _ \<Rightarrow>
                if (if byte a = 0xE0 then 0xA0 else 0x80) \<le> byte b
                   \<and> byte b \<le> (if byte a = 0xED then 0x9F else 0xBF) \<and> isCont c
                then 3 else 0
            | _ \<Rightarrow> 0)
         else if 0xF0 \<le> byte a \<and> byte a \<le> 0xF4 then
           (case r of
              b # c # d # _ \<Rightarrow>
                if (if byte a = 0xF0 then 0x90 else 0x80) \<le> byte b
                   \<and> byte b \<le> (if byte a = 0xF4 then 0x8F else 0xBF) \<and> isCont c \<and> isCont d
                then 4 else 0
            | _ \<Rightarrow> 0)
         else 0)"

definition simple_escape :: "char \<Rightarrow> char option" where
  "simple_escape e =
    (if e = CHR 0x22 \<or> e = CHR 0x5C \<or> e = CHR ''/'' then Some e
     else if e = CHR ''b'' then Some (CHR 0x08)
     else if e = CHR ''f'' then Some (CHR 0x0C)
     else if e = CHR ''n'' then Some (CHR 0x0A)
     else if e = CHR ''r'' then Some (CHR 0x0D)
     else if e = CHR ''t'' then Some (CHR 0x09)
     else None)"

fun unquote :: "string \<Rightarrow> string option" where
  "unquote [] = Some []"
| "unquote (c # cs) =
     (if c = CHR 0x5C then
        (case cs of
           [] \<Rightarrow> None
         | e # es \<Rightarrow>
             if e = CHR ''u'' then
               (case hex4 es of
                  None \<Rightarrow> None
                | Some rr \<Rightarrow>
                    if IsSurrogate rr then
                      (case getu4 (drop 4 es) of
                         None \<Rightarrow> map_option ((@) (EncodeRune RuneError)) (unquote (drop 4 es))
                       | Some rr1 \<Rightarrow>
                           if utf16_DecodeRune rr rr1 \<noteq> RuneError
                           then map_option ((@) (EncodeRune (utf16_DecodeRune rr rr1))) (unquote (drop 10 es))
                           else map_option ((@) (EncodeRune RuneError)) (unquote (drop 4 es)))
                    else map_option ((@) (EncodeRune rr)) (unquote (drop 4 es)))
             else
               (case simple_escape e of
                  None \<Rightarrow> None
                | Some b \<Rightarrow> map_option ((#) b) (unquote es)))
      else if c = CHR 0x22 \<or> byte c < 0x20 then None
      else if utf8_width (c # cs) = 0 then map_option ((@) (EncodeRune RuneError)) (unquote cs)
      else map_option ((@) (take (utf8_width (c # cs)) (c # cs))) (unquote (drop (utf8_width (c # cs) - 1) cs)))"

text \<open>
  The parser, one token at a time, with the stack of the arrays and objects that are open.
  \<open>KeyFrame\<close> is an object whose next member has its key and waits for its value.
\<close>

datatype frame =
    ArrFrame "json list"
  | ObjFrame "(string \<times> json) list"
  | KeyFrame "(string \<times> json) list" string

datatype expect = ExpValue | ExpValueOrEnd | ExpKey | ExpKeyOrEnd | ExpColon | ExpCommaOrEnd | ExpEOF

type_synonym pstate = "expect \<times> frame list \<times> json option"

definition parse_reduce :: "json \<Rightarrow> frame list \<Rightarrow> pstate option" where
  "parse_reduce v stk =
    (case stk of
       [] \<Rightarrow> Some (ExpEOF, [], Some v)
     | ArrFrame xs # r \<Rightarrow> Some (ExpCommaOrEnd, ArrFrame (xs @ [v]) # r, None)
     | KeyFrame kvs k # r \<Rightarrow> Some (ExpCommaOrEnd, ObjFrame (kvs @ [(k, v)]) # r, None)
     | ObjFrame kvs # r \<Rightarrow> None)"

definition parse_literal :: "string \<Rightarrow> json" where
  "parse_literal s = (if s = ''true'' then JBool True else if s = ''false'' then JBool False else JNull)"

text \<open>The scanner of encoding/json refuses the bracket that opens level 10001.\<close>

definition maxNestingDepth :: int where
  "maxNestingDepth = 10000"

definition parse_push :: "expect \<Rightarrow> frame \<Rightarrow> frame list \<Rightarrow> pstate option" where
  "parse_push e f stk =
    (if int (length (f # stk)) \<le> maxNestingDepth then Some (e, f # stk, None) else None)"

definition parse_value_token :: "bool \<Rightarrow> frame list \<Rightarrow> token \<Rightarrow> pstate option" where
  "parse_value_token may_end stk t =
    (case t of
       TString raw \<Rightarrow> (case unquote raw of None \<Rightarrow> None | Some s \<Rightarrow> parse_reduce (JString s) stk)
     | TNumber n \<Rightarrow> parse_reduce (JNumber n) stk
     | TLiteral l \<Rightarrow> parse_reduce (parse_literal l) stk
     | TLBrack \<Rightarrow> parse_push ExpValueOrEnd (ArrFrame []) stk
     | TLBrace \<Rightarrow> parse_push ExpKeyOrEnd (ObjFrame []) stk
     | TRBrack \<Rightarrow>
         (case stk of
            ArrFrame xs # r \<Rightarrow> if may_end then parse_reduce (JArray xs) r else None
          | _ \<Rightarrow> None)
     | _ \<Rightarrow> None)"

definition parse_key_token :: "bool \<Rightarrow> frame list \<Rightarrow> token \<Rightarrow> pstate option" where
  "parse_key_token may_end stk t =
    (case t of
       TString raw \<Rightarrow>
         (case (unquote raw, stk) of
            (Some k, ObjFrame kvs # r) \<Rightarrow> Some (ExpColon, KeyFrame kvs k # r, None)
          | _ \<Rightarrow> None)
     | TRBrace \<Rightarrow>
         (case stk of
            ObjFrame kvs # r \<Rightarrow> if may_end then parse_reduce (JObject kvs) r else None
          | _ \<Rightarrow> None)
     | _ \<Rightarrow> None)"

definition parse_step :: "pstate \<Rightarrow> token \<Rightarrow> pstate option" where
  "parse_step st t =
    (case st of (e, stk, res) \<Rightarrow>
       (case e of
          ExpValue \<Rightarrow> parse_value_token False stk t
        | ExpValueOrEnd \<Rightarrow> parse_value_token True stk t
        | ExpKey \<Rightarrow> parse_key_token False stk t
        | ExpKeyOrEnd \<Rightarrow> parse_key_token True stk t
        | ExpColon \<Rightarrow> (case t of TColon \<Rightarrow> Some (ExpValue, stk, None) | _ \<Rightarrow> None)
        | ExpCommaOrEnd \<Rightarrow>
            (case (t, stk) of
               (TComma, ArrFrame xs # r) \<Rightarrow> Some (ExpValue, stk, None)
             | (TComma, ObjFrame kvs # r) \<Rightarrow> Some (ExpKey, stk, None)
             | (TRBrack, ArrFrame xs # r) \<Rightarrow> parse_reduce (JArray xs) r
             | (TRBrace, ObjFrame kvs # r) \<Rightarrow> parse_reduce (JObject kvs) r
             | _ \<Rightarrow> None)
        | ExpEOF \<Rightarrow> None))"

fun parse_tokens :: "pstate \<Rightarrow> token list \<Rightarrow> pstate option" where
  "parse_tokens st [] = Some st"
| "parse_tokens st (t # ts) = (case parse_step st t of None \<Rightarrow> None | Some st' \<Rightarrow> parse_tokens st' ts)"

definition json_parse :: "string \<Rightarrow> json option" where
  "json_parse s =
    (case lex LTop s of
       None \<Rightarrow> None
     | Some ts \<Rightarrow>
         (case parse_tokens (ExpValue, [], None) ts of
            Some (ExpEOF, [], Some v) \<Rightarrow> Some v
          | _ \<Rightarrow> None))"

text \<open>
  A key of an object selects the struct field whose name it equals when upper and lower case
  are not told apart; for the ASCII letters s and k of a name, the runes U+017F and U+212A
  count as the letter too. The names of the fields below are lower case, so a key selects the
  field whose name is the key folded.
\<close>

fun foldName :: "string \<Rightarrow> string" where
  "foldName [] = []"
| "foldName (c # cs) =
     (if isUpper c then char_of (byte c + 0x20) # foldName cs
      else if c = CHR 0xC5 \<and> take 1 cs = [CHR 0xBF] then CHR ''s'' # foldName (drop 1 cs)
      else if c = CHR 0xE2 \<and> take 2 cs = [CHR 0x84, CHR 0xAA] then CHR ''k'' # foldName (drop 2 cs)
      else c # foldName cs)"

text \<open>The decoder keeps the first error of a mismatched type and goes on.\<close>

definition saveError :: "error option \<Rightarrow> error option \<Rightarrow> error option" where
  "saveError saved e = (case saved of None \<Rightarrow> e | Some _ \<Rightarrow> saved)"

definition SyntaxError :: error where
  "SyntaxError = ''json: SyntaxError''"

definition UnmarshalTypeError :: error where
  "UnmarshalTypeError = ''json: UnmarshalTypeError''"

text \<open>A string field takes a JSON string, keeps its value for \<open>null\<close>, and refuses anything else.\<close>

definition decode_string :: "json \<Rightarrow> string \<Rightarrow> string \<times> error option" where
  "decode_string v cur =
    (case v of
       JString s \<Rightarrow> (s, None)
     | JNull \<Rightarrow> (cur, None)
     | _ \<Rightarrow> (cur, Some UnmarshalTypeError))"

text \<open>\<open>strconv.ParseInt(s, 10, 64)\<close> on a number literal: no fraction, no exponent, 64 bits.\<close>

definition ParseInt :: "string \<Rightarrow> int option" where
  "ParseInt s =
    (let neg = (s \<noteq> [] \<and> hd s = CHR ''-'');
         ds = (if neg then tl s else s)
     in if ds = [] \<or> \<not> list_all isDigit ds then None
        else (let n = foldl (\<lambda>a d. a * 10 + int (byte d - byte CHR ''0'')) 0 ds;
                  v = (if neg then - n else n)
              in if - (2 ^ 63) \<le> v \<and> v < 2 ^ 63 then Some v else None))"

definition decode_int :: "json \<Rightarrow> int \<Rightarrow> int \<times> error option" where
  "decode_int v cur =
    (case v of
       JNumber n \<Rightarrow> (case ParseInt n of Some i \<Rightarrow> (i, None) | None \<Rightarrow> (cur, Some UnmarshalTypeError))
     | JNull \<Rightarrow> (cur, None)
     | _ \<Rightarrow> (cur, Some UnmarshalTypeError))"

section \<open>The report handler\<close>

record Report =
  DocumentURI :: string
  Referrer :: string
  BlockedURI :: string
  EffectiveDirective :: string
  ViolatedDirective :: string
  OriginalPolicy :: string
  Disposition :: string
  StatusCode :: int

definition Report_zero :: Report where
  "Report_zero = \<lparr>DocumentURI = [], Referrer = [], BlockedURI = [], EffectiveDirective = [],
     ViolatedDirective = [], OriginalPolicy = [], Disposition = [], StatusCode = 0\<rparr>"

text \<open>The envelope: the embedded \<open>Report\<close> has the tag \<open>csp-report\<close>, so it is a field of that name.\<close>

record cspReport =
  cspReport_Report :: Report

definition cspReport_zero :: cspReport where
  "cspReport_zero = \<lparr>cspReport_Report = Report_zero\<rparr>"

text \<open>One member of the object for a \<open>Report\<close>; a key that selects no field is skipped.\<close>

definition Report_member :: "Report \<times> error option \<Rightarrow> string \<times> json \<Rightarrow> Report \<times> error option" where
  "Report_member st kv =
    (case (st, kv) of ((r, saved), (k, v)) \<Rightarrow>
       (let f = foldName k in
        if f = ''document-uri'' then
          (case decode_string v (DocumentURI r) of (s, e) \<Rightarrow> (r\<lparr>DocumentURI := s\<rparr>, saveError saved e))
        else if f = ''referrer'' then
          (case decode_string v (Referrer r) of (s, e) \<Rightarrow> (r\<lparr>Referrer := s\<rparr>, saveError saved e))
        else if f = ''blocked-uri'' then
          (case decode_string v (BlockedURI r) of (s, e) \<Rightarrow> (r\<lparr>BlockedURI := s\<rparr>, saveError saved e))
        else if f = ''effective-directive'' then
          (case decode_string v (EffectiveDirective r) of (s, e) \<Rightarrow>
             (r\<lparr>EffectiveDirective := s\<rparr>, saveError saved e))
        else if f = ''violated-directive'' then
          (case decode_string v (ViolatedDirective r) of (s, e) \<Rightarrow>
             (r\<lparr>ViolatedDirective := s\<rparr>, saveError saved e))
        else if f = ''original-policy'' then
          (case decode_string v (OriginalPolicy r) of (s, e) \<Rightarrow> (r\<lparr>OriginalPolicy := s\<rparr>, saveError saved e))
        else if f = ''disposition'' then
          (case decode_string v (Disposition r) of (s, e) \<Rightarrow> (r\<lparr>Disposition := s\<rparr>, saveError saved e))
        else if f = ''status'' then
          (case decode_int v (StatusCode r) of (i, e) \<Rightarrow> (r\<lparr>StatusCode := i\<rparr>, saveError saved e))
        else (r, saved)))"

text \<open>A struct takes an object, member by member, keeps its value for \<open>null\<close>, and refuses anything else.\<close>

definition decode_Report :: "json \<Rightarrow> Report \<times> error option \<Rightarrow> Report \<times> error option" where
  "decode_Report v st =
    (case v of
       JObject kvs \<Rightarrow> foldl Report_member st kvs
     | JNull \<Rightarrow> st
     | _ \<Rightarrow> (fst st, saveError (snd st) (Some UnmarshalTypeError)))"

definition cspReport_member :: "cspReport \<times> error option \<Rightarrow> string \<times> json \<Rightarrow> cspReport \<times> error option" where
  "cspReport_member st kv =
    (case (st, kv) of ((c, saved), (k, v)) \<Rightarrow>
       if foldName k = ''csp-report'' then
         (case decode_Report v (cspReport_Report c, saved) of (r, e) \<Rightarrow> (c\<lparr>cspReport_Report := r\<rparr>, e))
       else (c, saved))"

definition decode_cspReport :: "json \<Rightarrow> cspReport \<times> error option \<Rightarrow> cspReport \<times> error option" where
  "decode_cspReport v st =
    (case v of
       JObject kvs \<Rightarrow> foldl cspReport_member st kvs
     | JNull \<Rightarrow> st
     | _ \<Rightarrow> (fst st, saveError (snd st) (Some UnmarshalTypeError)))"

definition json_Unmarshal :: "string \<Rightarrow> cspReport \<Rightarrow> cspReport \<times> error option" where
  "json_Unmarshal data rep =
    (case json_parse data of
       None \<Rightarrow> (rep, Some SyntaxError)
     | Some v \<Rightarrow> decode_cspReport v (rep, None))"

text \<open>
  The two hooks. A report handler answers a report with an error or nil; an error handler
  writes to the response. Logging is left out.
\<close>

type_synonym ReportHandler = "Report \<Rightarrow> error option"

type_synonym ErrorHandler = "ResponseWriter \<Rightarrow> Request \<Rightarrow> int \<Rightarrow> error \<Rightarrow> ResponseWriter"

definition defaultLogReporter_Report :: ReportHandler where
  "defaultLogReporter_Report r = None"

definition defaultErrorHandler_Error :: ErrorHandler where
  "defaultErrorHandler_Error w r status err =
    (let w = Write w err;
         w = WriteHeader w status
     in w)"

text \<open>
  An option of \<open>RouteHandler\<close> is any value; what counts is which of the two interfaces it
  implements. The last option of each kind wins.
\<close>

record opt =
  asReportHandler :: "ReportHandler option"
  asErrorHandler :: "ErrorHandler option"

fun RouteHandler_opts :: "ReportHandler \<times> ErrorHandler \<Rightarrow> opt list \<Rightarrow> ReportHandler \<times> ErrorHandler" where
  "RouteHandler_opts (reportHandler, errorHandler) [] = (reportHandler, errorHandler)"
| "RouteHandler_opts (reportHandler, errorHandler) (x # opts) =
     RouteHandler_opts
       (case asReportHandler x of Some r \<Rightarrow> r | None \<Rightarrow> reportHandler,
        case asErrorHandler x of Some e \<Rightarrow> e | None \<Rightarrow> errorHandler) opts"

text \<open>
  The handler function that \<open>RouteHandler\<close> returns, with the calls it makes in their order:
  reading the body, the two hooks with their arguments, and the deferred closing of the body.
\<close>

datatype event = ReadAll | Close | ErrorCall int error | ReportCall Report

definition Errorf_content_type :: error where
  "Errorf_content_type = ''Unsupported content type (expected '' @ ReportContentType @ '')''"

definition RouteHandler_func ::
  "ReportHandler \<Rightarrow> ErrorHandler \<Rightarrow> ResponseWriter \<Rightarrow> Request \<Rightarrow> ResponseWriter \<times> event list" where
  "RouteHandler_func reportHandler errorHandler w r =
    (let contentType = Header_Get (ReqHeader r) ''Content-Type'' in
     if contentType \<noteq> ReportContentType then
       (errorHandler w r StatusUnsupportedMediaType Errorf_content_type,
        [ErrorCall StatusUnsupportedMediaType Errorf_content_type])
     else
       (case ReqBody r of
          (body, Some err) \<Rightarrow>
            (errorHandler w r StatusBadRequest err, [ReadAll, ErrorCall StatusBadRequest err, Close])
        | (body, None) \<Rightarrow>
            (case json_Unmarshal body cspReport_zero of
               (rep, Some err) \<Rightarrow>
                 (errorHandler w r StatusBadRequest err, [ReadAll, ErrorCall StatusBadRequest err, Close])
             | (rep, None) \<Rightarrow>
                 (case reportHandler (cspReport_Report rep) of
                    Some err \<Rightarrow>
                      (errorHandler w r StatusInternalServerError err,
                       [ReadAll, ReportCall (cspReport_Report rep),
                        ErrorCall StatusInternalServerError err, Close])
                  | None \<Rightarrow>
                      (WriteHeader w StatusOK, [ReadAll, ReportCall (cspReport_Report rep), Close])))))"

definition RouteHandler :: "opt list \<Rightarrow> ResponseWriter \<Rightarrow> Request \<Rightarrow> ResponseWriter \<times> event list" where
  "RouteHandler opts =
    (case RouteHandler_opts (defaultLogReporter_Report, defaultErrorHandler_Error) opts of
       (reportHandler, errorHandler) \<Rightarrow> RouteHandler_func reportHandler errorHandler)"

text \<open>The calls of the error hook and of the report sink in a run.\<close>

fun error_calls :: "event list \<Rightarrow> (int \<times> error) list" where
  "error_calls [] = []"
| "error_calls (ErrorCall status err # es) = (status, err) # error_calls es"
| "error_calls (_ # es) = error_calls es"

fun report_calls :: "event list \<Rightarrow> Report list" where
  "report_calls [] = []"
| "report_calls (ReportCall rep # es) = rep # report_calls es"
| "report_calls (_ # es) = report_calls es"

text \<open>The example report of the specification, and a request that carries it.\<close>

definition example_body :: string where
  "example_body = ''{\"csp-report\":{\"document-uri\":\"http://example.com/signup.html\",\"blocked-uri\":\"http://example.com/css/style.css\",\"violated-directive\":\"style-src cdn.example.com\",\"original-policy\":\"default-src 'none'; style-src cdn.example.com\",\"disposition\":\"report\"}}''"

definition example_report :: Report where
  "example_report = Report_zero\<lparr>DocumentURI := ''http://example.com/signup.html'',
     BlockedURI := ''http://example.com/css/style.css'',
     ViolatedDirective := ''style-src cdn.example.com'',
     OriginalPolicy := ''default-src 'none'; style-src cdn.example.com'',
     Disposition := ''report''\<rparr>"

definition report_request :: "string \<Rightarrow> Request" where
  "report_request body = \<lparr>ReqHeader = [''Content-Type'' \<mapsto> [ReportContentType] ], ReqBody = (body, None)\<rparr>"

section \<open>Directives by name\<close>

text \<open>
  The statements below speak of a directive by its name. \<open>directive_names\<close> lists the names
  in the order in which \<open>MarshalText\<close> appends them; \<open>slot_of\<close> is the field that the
  \<open>switch\<close> of \<open>UnmarshalText\<close> pairs with a name, a source list or the scalar.
\<close>

datatype slot = SourceSlot SourceList | ScalarSlot string

definition directive_names :: "string list" where
  "directive_names = [defaultSrc, childSrc, connectSrc, fontSrc, frameSrc, imgSrc, manifestSrc,
     mediaSrc, objectSrc, scriptSrc, styleSrc, workerSrc, reportTo]"

definition slot_of :: "string \<Rightarrow> CSP \<Rightarrow> slot option" where
  "slot_of n c =
    (if n = childSrc then Some (SourceSlot (ChildSrc c))
     else if n = connectSrc then Some (SourceSlot (ConnectSrc c))
     else if n = defaultSrc then Some (SourceSlot (DefaultSrc c))
     else if n = fontSrc then Some (SourceSlot (FontSrc c))
     else if n = frameSrc then Some (SourceSlot (FrameSrc c))
     else if n = imgSrc then Some (SourceSlot (ImgSrc c))
     else if n = manifestSrc then Some (SourceSlot (ManifestSrc c))
     else if n = mediaSrc then Some (SourceSlot (MediaSrc c))
     else if n = objectSrc then Some (SourceSlot (ObjectSrc c))
     else if n = scriptSrc then Some (SourceSlot (ScriptSrc c))
     else if n = styleSrc then Some (SourceSlot (StyleSrc c))
     else if n = workerSrc then Some (SourceSlot (WorkerSrc c))
     else if n = reportTo then Some (ScalarSlot (ReportTo c))
     else None)"

text \<open>A slot is present when its source list, or its scalar, is not empty.\<close>

definition slot_present :: "slot \<Rightarrow> bool" where
  "slot_present s = (case s of SourceSlot l \<Rightarrow> l \<noteq> [] | ScalarSlot v \<Rightarrow> v \<noteq> [])"

definition present :: "string \<Rightarrow> CSP \<Rightarrow> bool" where
  "present n c = (case slot_of n c of Some s \<Rightarrow> slot_present s | None \<Rightarrow> False)"

text \<open>
  The text of a slot's value, and the entry that \<open>MarshalText\<close> appends for a name: none
  when the slot is not present.
\<close>

definition slot_text :: "slot \<Rightarrow> string" where
  "slot_text s = (case s of SourceSlot l \<Rightarrow> Join l '' '' | ScalarSlot v \<Rightarrow> v)"

definition policy_entry :: "CSP \<Rightarrow> string \<Rightarrow> string list" where
  "policy_entry c n =
    (case slot_of n c of
       None \<Rightarrow> []
     | Some s \<Rightarrow> if slot_present s then [Sprintf_s_s n (slot_text s)] else [])"

text \<open>What the \<open>switch\<close> stores under a name for the text of a value.\<close>

definition slot_decode :: "string \<Rightarrow> string \<Rightarrow> slot" where
  "slot_decode k v = (if k = reportTo then ScalarSlot v else SourceSlot (Split v CHR '' ''))"

text \<open>
  The name and the value that the loop of \<open>UnmarshalText\<close> reads from a segment, \<open>None\<close> when
  it skips the segment before the \<open>switch\<close>.
\<close>

definition segment_kv :: "string \<Rightarrow> (string \<times> string) option" where
  "segment_kv p =
    (let l = SplitN (TrimSpace p) CHR '' '' 2 in
     if p = [] \<or> length l \<noteq> 2 then None
     else Some (TrimSpace (l ! 0), TrimSpace (l ! 1)))"

definition segment_names :: "string list \<Rightarrow> string list" where
  "segment_names ps = map fst (List.map_filter segment_kv ps)"

text \<open>A segment is recognized when it has a name and a value and the name is a directive's.\<close>

definition recognized :: "string \<Rightarrow> bool" where
  "recognized p = (case segment_kv p of Some (k, v) \<Rightarrow> k \<in> set directive_names | None \<Rightarrow> False)"

text \<open>The source tokens of a policy, and all its values: the tokens and the scalar.\<close>

definition policy_tokens :: "CSP \<Rightarrow> string list" where
  "policy_tokens c = concat [DefaultSrc c, ChildSrc c, ConnectSrc c, FontSrc c, FrameSrc c, ImgSrc c,
     ManifestSrc c, MediaSrc c, ObjectSrc c, ScriptSrc c, StyleSrc c, WorkerSrc c]"

definition policy_values :: "CSP \<Rightarrow> string list" where
  "policy_values c = policy_tokens c @ [ReportTo c]"

text \<open>
  A value without a space or a semicolon in it and without white space at either end; a
  token is such a value that is not empty.
\<close>

definition clean_scalar :: "string \<Rightarrow> bool" where
  "clean_scalar s = (CHR '' '' \<notin> set s \<and> CHR '';'' \<notin> set s \<and> TrimSpace s = s)"

definition clean_token :: "string \<Rightarrow> bool" where
  "clean_token t = (t \<noteq> [] \<and> clean_scalar t)"

section \<open>The default policy\<close>

text \<open>
  C3: encoding the policy that \<open>Default()\<close> returns gives exactly
  \<open>default-src 'none'; connect-src 'self'; img-src 'self'; script-src 'self'; style-src 'self'\<close>,
  the directives in the order in which \<open>MarshalText\<close> appends them and no separator at the
  end, with the nil error.
\<close>

theorem C3_default_policy_text:
  "MarshalText Default =
    (''default-src 'none'; connect-src 'self'; img-src 'self'; script-src 'self'; style-src 'self''
       @ [CHR 0x27], None)"
  by code_simp

section \<open>Trimming, splitting and joining\<close>

lemma firstSpace_Nil [simp]: "firstSpace [] = 0"
  by (simp add: firstSpace_def)

lemma lastSpace_Nil [simp]: "lastSpace [] = 0"
  by (simp add: lastSpace_def)

lemma TrimLeft_id: "firstSpace s = 0 \<Longrightarrow> TrimLeft s = s"
  by (subst TrimLeft.simps) simp

lemma TrimLeft_step: "firstSpace s \<noteq> 0 \<Longrightarrow> TrimLeft s = TrimLeft (drop (firstSpace s) s)"
  by (subst TrimLeft.simps) simp

lemma TrimRight_step: "lastSpace s \<noteq> 0 \<Longrightarrow> TrimRight s = TrimRight (take (length s - lastSpace s) s)"
  by (subst TrimRight.simps) simp

lemma TrimRight_id: "lastSpace s = 0 \<Longrightarrow> TrimRight s = s"
  by (subst TrimRight.simps) simp

lemma TrimSpace_id: "firstSpace s = 0 \<Longrightarrow> lastSpace s = 0 \<Longrightarrow> TrimSpace s = s"
  by (simp add: TrimSpace_def TrimLeft_id TrimRight_id)

lemma firstSpace_le: "firstSpace s \<le> length s"
  by (cases s) (auto simp: firstSpace_def)

lemma lastSpace_le: "lastSpace s \<le> length s"
  by (cases s) (auto simp: lastSpace_def)

lemma length_TrimLeft: "length (TrimLeft s) \<le> length s"
proof (induction s rule: TrimLeft.induct)
  case (1 s)
  show ?case
  proof (cases "firstSpace s = 0")
    case True
    then show ?thesis by (simp add: TrimLeft_id)
  next
    case False
    with 1 have "length (TrimLeft (drop (firstSpace s) s)) \<le> length (drop (firstSpace s) s)" by simp
    moreover have "TrimLeft s = TrimLeft (drop (firstSpace s) s)" using False by (rule TrimLeft_step)
    ultimately show ?thesis by simp
  qed
qed

lemma length_TrimLeft_less: "firstSpace s \<noteq> 0 \<Longrightarrow> length (TrimLeft s) < length s"
proof -
  assume a: "firstSpace s \<noteq> 0"
  then have "s \<noteq> []" by auto
  have "TrimLeft s = TrimLeft (drop (firstSpace s) s)" using a by (rule TrimLeft_step)
  moreover have "length (TrimLeft (drop (firstSpace s) s)) \<le> length (drop (firstSpace s) s)"
    by (rule length_TrimLeft)
  moreover have "length (drop (firstSpace s) s) < length s" using a \<open>s \<noteq> []\<close> by simp
  ultimately show ?thesis by simp
qed

lemma length_TrimRight: "length (TrimRight s) \<le> length s"
proof (induction s rule: TrimRight.induct)
  case (1 s)
  show ?case
  proof (cases "lastSpace s = 0")
    case True
    then show ?thesis by (simp add: TrimRight_id)
  next
    case False
    with 1 have "length (TrimRight (take (length s - lastSpace s) s)) \<le> length (take (length s - lastSpace s) s)" by simp
    moreover have "TrimRight s = TrimRight (take (length s - lastSpace s) s)" using False by (rule TrimRight_step)
    ultimately show ?thesis by simp
  qed
qed

lemma length_TrimRight_less: "lastSpace s \<noteq> 0 \<Longrightarrow> length (TrimRight s) < length s"
proof -
  assume a: "lastSpace s \<noteq> 0"
  then have "s \<noteq> []" by auto
  have "TrimRight s = TrimRight (take (length s - lastSpace s) s)" using a by (rule TrimRight_step)
  moreover have "length (TrimRight (take (length s - lastSpace s) s)) \<le> length (take (length s - lastSpace s) s)"
    by (rule length_TrimRight)
  moreover have "length (take (length s - lastSpace s) s) < length s" using a \<open>s \<noteq> []\<close> by simp
  ultimately show ?thesis by simp
qed

lemma TrimSpace_fixed:
  assumes "TrimSpace s = s"
  shows "firstSpace s = 0 \<and> lastSpace s = 0"
proof -
  have f: "firstSpace s = 0"
  proof (rule ccontr)
    assume "firstSpace s \<noteq> 0"
    then have "length (TrimLeft s) < length s" by (rule length_TrimLeft_less)
    moreover have "length (TrimRight (TrimLeft s)) \<le> length (TrimLeft s)" by (rule length_TrimRight)
    ultimately show False using assms by (simp add: TrimSpace_def)
  qed
  then have "TrimLeft s = s" by (rule TrimLeft_id)
  with assms have t: "TrimRight s = s" by (simp add: TrimSpace_def)
  have "lastSpace s = 0"
  proof (rule ccontr)
    assume "lastSpace s \<noteq> 0"
    then have "length (TrimRight s) < length s" by (rule length_TrimRight_less)
    with t show False by simp
  qed
  with f show ?thesis by simp
qed

text \<open>A white space rune does not reach across an ASCII space that follows other bytes.\<close>

lemma firstSpace_append_space:
  "t \<noteq> [] \<Longrightarrow> firstSpace (t @ CHR '' '' # r) = firstSpace t"
proof -
  assume "t \<noteq> []"
  then obtain a t1 where t: "t = a # t1" by (cases t) auto
  show ?thesis
  proof (cases t1)
    case Nil
    with t show ?thesis by (simp add: firstSpace_def unicodeSpace_def)
  next
    case (Cons b t2)
    show ?thesis
    proof (cases t2)
      case Nil
      with t Cons show ?thesis by (simp add: firstSpace_def unicodeSpace_def)
    next
      case (Cons c t3)
      with t \<open>t1 = b # t2\<close> show ?thesis by (simp add: firstSpace_def)
    qed
  qed
qed

lemma lastSpace_space_append:
  "t \<noteq> [] \<Longrightarrow> lastSpace (r @ CHR '' '' # t) = lastSpace t"
proof -
  assume "t \<noteq> []"
  then obtain a t1 where t: "t = t1 @ [a]" by (cases t rule: rev_cases) auto
  show ?thesis
  proof (cases t1 rule: rev_cases)
    case Nil
    with t show ?thesis by (simp add: lastSpace_def unicodeSpace_def)
  next
    case (snoc t2 b)
    show ?thesis
    proof (cases t2 rule: rev_cases)
      case Nil
      with t snoc show ?thesis by (simp add: lastSpace_def unicodeSpace_def)
    next
      case (snoc t3 c)
      with t \<open>t1 = t2 @ [b]\<close> show ?thesis by (simp add: lastSpace_def)
    qed
  qed
qed

lemma Split_nonempty: "Split s sep \<noteq> []"
  by (induction s) (auto split: list.splits)

lemma Split_no_sep: "sep \<notin> set s \<Longrightarrow> Split s sep = [s]"
  by (induction s) auto

lemma Split_append: "sep \<notin> set a \<Longrightarrow> Split (a @ sep # b) sep = a # Split b sep"
  by (induction a) auto

lemma Split_Join:
  "xs \<noteq> [] \<Longrightarrow> \<forall>x\<in>set xs. sep \<notin> set x \<Longrightarrow> Split (Join xs [sep]) sep = xs"
proof (induction xs "[sep]" rule: Join.induct)
  case 1
  then show ?case by simp
next
  case (2 x)
  then show ?case by (simp add: Split_no_sep)
next
  case (3 x y ys)
  then show ?case by (simp add: Split_append)
qed

lemma Split_Join2:
  "xs \<noteq> [] \<Longrightarrow> \<forall>x\<in>set xs. sep \<notin> set x \<Longrightarrow> c \<noteq> sep \<Longrightarrow>
   Split (Join xs [sep, c]) sep = hd xs # map ((#) c) (tl xs)"
proof (induction xs "[sep, c]" rule: Join.induct)
  case 1
  then show ?case by simp
next
  case (2 x)
  then show ?case by (simp add: Split_no_sep)
next
  case (3 x y ys)
  have "Split (Join (y # ys) [sep, c]) sep = y # map ((#) c) ys" using 3 by simp
  then have "Split (c # Join (y # ys) [sep, c]) sep = (c # y) # map ((#) c) ys"
    using 3 by auto
  with 3 show ?case by (simp add: Split_append)
qed

lemma SplitN2_no_sep: "sep \<notin> set s \<Longrightarrow> SplitN s sep (Suc (Suc 0)) = [s]"
  by (induction s) auto

lemma SplitN2_append: "sep \<notin> set a \<Longrightarrow> SplitN (a @ sep # b) sep (Suc (Suc 0)) = [a, b]"
  by (induction a) auto

lemma SplitN2_cases:
  "SplitN s sep (Suc (Suc 0)) = [s] \<and> sep \<notin> set s \<or>
   (\<exists>a b. s = a @ sep # b \<and> sep \<notin> set a \<and> SplitN s sep (Suc (Suc 0)) = [a, b])"
proof (cases "sep \<in> set s")
  case True
  then obtain a b where "s = a @ sep # b" "sep \<notin> set a" by (meson split_list_first)
  then show ?thesis by (auto simp: SplitN2_append)
next
  case False
  then show ?thesis by (simp add: SplitN2_no_sep)
qed

lemma Join_snoc: "Join (es @ [e]) sep = (if es = [] then e else Join es sep @ sep @ e)"
  by (induction es sep rule: Join.induct) auto

lemma Join_Cons: "Join (e # es) sep = (if es = [] then e else e @ sep @ Join es sep)"
  by (cases es) auto

lemma segment_eq:
  "UnmarshalText_segment c p = (case segment_kv p of None \<Rightarrow> c | Some (k, v) \<Rightarrow> UnmarshalText_switch c k v)"
  by (simp add: UnmarshalText_segment_def segment_kv_def Let_def)

section \<open>Decoding, segment by segment\<close>

lemmas name_defs = childSrc_def connectSrc_def defaultSrc_def fontSrc_def frameSrc_def imgSrc_def
  manifestSrc_def mediaSrc_def objectSrc_def scriptSrc_def styleSrc_def workerSrc_def reportTo_def

lemma names_neq:
  "defaultSrc \<noteq> childSrc" "defaultSrc \<noteq> connectSrc" "defaultSrc \<noteq> fontSrc"
  "defaultSrc \<noteq> frameSrc" "defaultSrc \<noteq> imgSrc" "defaultSrc \<noteq> manifestSrc"
  "defaultSrc \<noteq> mediaSrc" "defaultSrc \<noteq> objectSrc" "defaultSrc \<noteq> scriptSrc"
  "defaultSrc \<noteq> styleSrc" "defaultSrc \<noteq> workerSrc" "defaultSrc \<noteq> reportTo"
  "childSrc \<noteq> defaultSrc" "childSrc \<noteq> connectSrc" "childSrc \<noteq> fontSrc"
  "childSrc \<noteq> frameSrc" "childSrc \<noteq> imgSrc" "childSrc \<noteq> manifestSrc"
  "childSrc \<noteq> mediaSrc" "childSrc \<noteq> objectSrc" "childSrc \<noteq> scriptSrc"
  "childSrc \<noteq> styleSrc" "childSrc \<noteq> workerSrc" "childSrc \<noteq> reportTo"
  "connectSrc \<noteq> defaultSrc" "connectSrc \<noteq> childSrc" "connectSrc \<noteq> fontSrc"
  "connectSrc \<noteq> frameSrc" "connectSrc \<noteq> imgSrc" "connectSrc \<noteq> manifestSrc"
  "connectSrc \<noteq> mediaSrc" "connectSrc \<noteq> objectSrc" "connectSrc \<noteq> scriptSrc"
  "connectSrc \<noteq> styleSrc" "connectSrc \<noteq> workerSrc" "connectSrc \<noteq> reportTo"
  "fontSrc \<noteq> defaultSrc" "fontSrc \<noteq> childSrc" "fontSrc \<noteq> connectSrc"
  "fontSrc \<noteq> frameSrc" "fontSrc \<noteq> imgSrc" "fontSrc \<noteq> manifestSrc"
  "fontSrc \<noteq> mediaSrc" "fontSrc \<noteq> objectSrc" "fontSrc \<noteq> scriptSrc"
  "fontSrc \<noteq> styleSrc" "fontSrc \<noteq> workerSrc" "fontSrc \<noteq> reportTo"
  "frameSrc \<noteq> defaultSrc" "frameSrc \<noteq> childSrc" "frameSrc \<noteq> connectSrc"
  "frameSrc \<noteq> fontSrc" "frameSrc \<noteq> imgSrc" "frameSrc \<noteq> manifestSrc"
  "frameSrc \<noteq> mediaSrc" "frameSrc \<noteq> objectSrc" "frameSrc \<noteq> scriptSrc"
  "frameSrc \<noteq> styleSrc" "frameSrc \<noteq> workerSrc" "frameSrc \<noteq> reportTo"
  "imgSrc \<noteq> defaultSrc" "imgSrc \<noteq> childSrc" "imgSrc \<noteq> connectSrc"
  "imgSrc \<noteq> fontSrc" "imgSrc \<noteq> frameSrc" "imgSrc \<noteq> manifestSrc"
  "imgSrc \<noteq> mediaSrc" "imgSrc \<noteq> objectSrc" "imgSrc \<noteq> scriptSrc"
  "imgSrc \<noteq> styleSrc" "imgSrc \<noteq> workerSrc" "imgSrc \<noteq> reportTo"
  "manifestSrc \<noteq> defaultSrc" "manifestSrc \<noteq> childSrc"
  "manifestSrc \<noteq> connectSrc" "manifestSrc \<noteq> fontSrc" "manifestSrc \<noteq> frameSrc"
  "manifestSrc \<noteq> imgSrc" "manifestSrc \<noteq> mediaSrc" "manifestSrc \<noteq> objectSrc"
  "manifestSrc \<noteq> scriptSrc" "manifestSrc \<noteq> styleSrc" "manifestSrc \<noteq> workerSrc"
  "manifestSrc \<noteq> reportTo"
  "mediaSrc \<noteq> defaultSrc" "mediaSrc \<noteq> childSrc" "mediaSrc \<noteq> connectSrc"
  "mediaSrc \<noteq> fontSrc" "mediaSrc \<noteq> frameSrc" "mediaSrc \<noteq> imgSrc"
  "mediaSrc \<noteq> manifestSrc" "mediaSrc \<noteq> objectSrc" "mediaSrc \<noteq> scriptSrc"
  "mediaSrc \<noteq> styleSrc" "mediaSrc \<noteq> workerSrc" "mediaSrc \<noteq> reportTo"
  "objectSrc \<noteq> defaultSrc" "objectSrc \<noteq> childSrc" "objectSrc \<noteq> connectSrc"
  "objectSrc \<noteq> fontSrc" "objectSrc \<noteq> frameSrc" "objectSrc \<noteq> imgSrc"
  "objectSrc \<noteq> manifestSrc" "objectSrc \<noteq> mediaSrc" "objectSrc \<noteq> scriptSrc"
  "objectSrc \<noteq> styleSrc" "objectSrc \<noteq> workerSrc" "objectSrc \<noteq> reportTo"
  "scriptSrc \<noteq> defaultSrc" "scriptSrc \<noteq> childSrc" "scriptSrc \<noteq> connectSrc"
  "scriptSrc \<noteq> fontSrc" "scriptSrc \<noteq> frameSrc" "scriptSrc \<noteq> imgSrc"
  "scriptSrc \<noteq> manifestSrc" "scriptSrc \<noteq> mediaSrc" "scriptSrc \<noteq> objectSrc"
  "scriptSrc \<noteq> styleSrc" "scriptSrc \<noteq> workerSrc" "scriptSrc \<noteq> reportTo"
  "styleSrc \<noteq> defaultSrc" "styleSrc \<noteq> childSrc" "styleSrc \<noteq> connectSrc"
  "styleSrc \<noteq> fontSrc" "styleSrc \<noteq> frameSrc" "styleSrc \<noteq> imgSrc"
  "styleSrc \<noteq> manifestSrc" "styleSrc \<noteq> mediaSrc" "styleSrc \<noteq> objectSrc"
  "styleSrc \<noteq> scriptSrc" "styleSrc \<noteq> workerSrc" "styleSrc \<noteq> reportTo"
  "workerSrc \<noteq> defaultSrc" "workerSrc \<noteq> childSrc" "workerSrc \<noteq> connectSrc"
  "workerSrc \<noteq> fontSrc" "workerSrc \<noteq> frameSrc" "workerSrc \<noteq> imgSrc"
  "workerSrc \<noteq> manifestSrc" "workerSrc \<noteq> mediaSrc" "workerSrc \<noteq> objectSrc"
  "workerSrc \<noteq> scriptSrc" "workerSrc \<noteq> styleSrc" "workerSrc \<noteq> reportTo"
  "reportTo \<noteq> defaultSrc" "reportTo \<noteq> childSrc" "reportTo \<noteq> connectSrc"
  "reportTo \<noteq> fontSrc" "reportTo \<noteq> frameSrc" "reportTo \<noteq> imgSrc"
  "reportTo \<noteq> manifestSrc" "reportTo \<noteq> mediaSrc" "reportTo \<noteq> objectSrc"
  "reportTo \<noteq> scriptSrc" "reportTo \<noteq> styleSrc" "reportTo \<noteq> workerSrc"
  by (simp_all add: name_defs)

lemma names_distinct: "distinct directive_names"
  by (simp add: directive_names_def names_neq)


lemma switch_unknown: "k \<notin> set directive_names \<Longrightarrow> UnmarshalText_switch c k v = c"
  by (simp add: UnmarshalText_switch_def directive_names_def)

lemma switch_other:
  "ReportOnly (UnmarshalText_switch c k v) = ReportOnly c"
  "CSP_h (UnmarshalText_switch c k v) = CSP_h c"
  by (simp_all add: UnmarshalText_switch_def)

lemma slot_of_switch:
  "slot_of n (UnmarshalText_switch c k v) =
     (if n = k \<and> k \<in> set directive_names then Some (slot_decode k v) else slot_of n c)"
proof (cases "k \<in> set directive_names")
  case False
  then show ?thesis by (simp add: switch_unknown)
next
  case True
  then consider "k = defaultSrc" | "k = childSrc" | "k = connectSrc" | "k = fontSrc" | "k = frameSrc"
    | "k = imgSrc" | "k = manifestSrc" | "k = mediaSrc" | "k = objectSrc" | "k = scriptSrc"
    | "k = styleSrc" | "k = workerSrc" | "k = reportTo"
    by (auto simp: directive_names_def)
  then show ?thesis
  proof cases
    case 1 then show ?thesis
      by (simp add: slot_of_def UnmarshalText_switch_def slot_decode_def directive_names_def
          SourceList_UnmarshalText_def names_neq)
  next
    case 2 then show ?thesis
      by (simp add: slot_of_def UnmarshalText_switch_def slot_decode_def directive_names_def
          SourceList_UnmarshalText_def names_neq)
  next
    case 3 then show ?thesis
      by (simp add: slot_of_def UnmarshalText_switch_def slot_decode_def directive_names_def
          SourceList_UnmarshalText_def names_neq)
  next
    case 4 then show ?thesis
      by (simp add: slot_of_def UnmarshalText_switch_def slot_decode_def directive_names_def
          SourceList_UnmarshalText_def names_neq)
  next
    case 5 then show ?thesis
      by (simp add: slot_of_def UnmarshalText_switch_def slot_decode_def directive_names_def
          SourceList_UnmarshalText_def names_neq)
  next
    case 6 then show ?thesis
      by (simp add: slot_of_def UnmarshalText_switch_def slot_decode_def directive_names_def
          SourceList_UnmarshalText_def names_neq)
  next
    case 7 then show ?thesis
      by (simp add: slot_of_def UnmarshalText_switch_def slot_decode_def directive_names_def
          SourceList_UnmarshalText_def names_neq)
  next
    case 8 then show ?thesis
      by (simp add: slot_of_def UnmarshalText_switch_def slot_decode_def directive_names_def
          SourceList_UnmarshalText_def names_neq)
  next
    case 9 then show ?thesis
      by (simp add: slot_of_def UnmarshalText_switch_def slot_decode_def directive_names_def
          SourceList_UnmarshalText_def names_neq)
  next
    case 10 then show ?thesis
      by (simp add: slot_of_def UnmarshalText_switch_def slot_decode_def directive_names_def
          SourceList_UnmarshalText_def names_neq)
  next
    case 11 then show ?thesis
      by (simp add: slot_of_def UnmarshalText_switch_def slot_decode_def directive_names_def
          SourceList_UnmarshalText_def names_neq)
  next
    case 12 then show ?thesis
      by (simp add: slot_of_def UnmarshalText_switch_def slot_decode_def directive_names_def
          SourceList_UnmarshalText_def names_neq)
  next
    case 13 then show ?thesis
      by (simp add: slot_of_def UnmarshalText_switch_def slot_decode_def directive_names_def
          SourceList_UnmarshalText_def names_neq)
  qed
qed

lemma segment_names_Nil [simp]: "segment_names [] = []"
  by (simp add: segment_names_def)

lemma segment_names_Cons:
  "segment_names (p # ps) =
     (case segment_kv p of None \<Rightarrow> segment_names ps | Some (k, v) \<Rightarrow> k # segment_names ps)"
  by (simp add: segment_names_def List.map_filter_simps split: option.splits)

lemma segment_names_append [simp]: "segment_names (ps @ qs) = segment_names ps @ segment_names qs"
  by (induction ps) (auto simp: segment_names_Cons split: option.splits)

lemma segment_slot:
  "slot_of n (UnmarshalText_segment c p) =
     (case segment_kv p of
        None \<Rightarrow> slot_of n c
      | Some (k, v) \<Rightarrow> if n = k \<and> k \<in> set directive_names then Some (slot_decode k v) else slot_of n c)"
  by (simp add: segment_eq slot_of_switch split: option.splits)

lemma segment_other:
  "ReportOnly (UnmarshalText_segment c p) = ReportOnly c"
  "CSP_h (UnmarshalText_segment c p) = CSP_h c"
  by (simp_all add: segment_eq switch_other split: option.splits)

lemma segment_ignored: "\<not> recognized p \<Longrightarrow> UnmarshalText_segment c p = c"
  by (auto simp: recognized_def segment_eq switch_unknown split: option.splits)

lemma foldl_frame:
  "n \<notin> set (segment_names ps) \<Longrightarrow> slot_of n (foldl UnmarshalText_segment c ps) = slot_of n c"
proof (induction ps arbitrary: c)
  case Nil
  then show ?case by simp
next
  case (Cons p ps)
  then have "n \<notin> set (segment_names ps)"
    by (auto simp: segment_names_Cons split: option.splits)
  then have "slot_of n (foldl UnmarshalText_segment (UnmarshalText_segment c p) ps)
      = slot_of n (UnmarshalText_segment c p)"
    by (rule Cons.IH)
  also have "\<dots> = slot_of n c"
    using Cons.prems by (auto simp: segment_slot segment_names_Cons split: option.splits)
  finally show ?case by simp
qed

lemma foldl_other:
  "ReportOnly (foldl UnmarshalText_segment c ps) = ReportOnly c"
  "CSP_h (foldl UnmarshalText_segment c ps) = CSP_h c"
  by (induction ps arbitrary: c) (simp_all add: segment_other)

lemma foldl_last_wins:
  assumes "segment_kv p = Some (k, v)" and "k \<in> set directive_names"
    and "k \<notin> set (segment_names qs)"
  shows "slot_of k (foldl UnmarshalText_segment c (ps @ p # qs)) = Some (slot_decode k v)"
proof -
  have "slot_of k (foldl UnmarshalText_segment c (ps @ p # qs))
      = slot_of k (UnmarshalText_segment (foldl UnmarshalText_segment c ps) p)"
    using assms(3) by (simp add: foldl_frame)
  also have "\<dots> = Some (slot_decode k v)"
    using assms(1,2) by (simp add: segment_slot)
  finally show ?thesis .
qed

lemma foldl_ignored:
  "foldl UnmarshalText_segment c (filter recognized ps) = foldl UnmarshalText_segment c ps"
  by (induction ps arbitrary: c) (simp_all add: segment_ignored)

lemma segment_kv_Nil [simp]: "segment_kv [] = None"
  by (simp add: segment_kv_def)

lemma Unmarshal_Join:
  assumes "\<forall>p\<in>set ps. CHR '';'' \<notin> set p"
  shows "fst (UnmarshalText c (Join ps '';'')) = foldl UnmarshalText_segment c ps"
proof (cases "ps = []")
  case True
  then show ?thesis by (simp add: UnmarshalText_def segment_eq)
next
  case False
  with assms have "Split (Join ps '';'') CHR '';'' = ps" by (simp add: Split_Join)
  then show ?thesis by (simp add: UnmarshalText_def)
qed

lemma segment_kv_bare: "CHR '' '' \<notin> set (TrimSpace p) \<Longrightarrow> segment_kv p = None"
  by (simp add: segment_kv_def numeral_2_eq_2 SplitN2_no_sep)

lemma Split_parts: "p \<in> set (Split s sep) \<Longrightarrow> sep \<notin> set p"
proof (induction s arbitrary: p)
  case Nil
  then show ?case by simp
next
  case (Cons c cs)
  show ?case
  proof (cases "c = sep")
    case True
    with Cons show ?thesis by auto
  next
    case False
    obtain x xs where x: "Split cs sep = x # xs" using Split_nonempty [of cs sep] by (cases "Split cs sep") auto
    with Cons.IH have "sep \<notin> set x" "\<forall>q\<in>set xs. sep \<notin> set q" by simp_all
    with Cons.prems False x show ?thesis by auto
  qed
qed

text \<open>
  C4: decoding is total and returns the nil error for every text. The segments that are not
  recognized (no directive's name, or no value after a space) leave the policy as it is, so
  that the text decodes like the text of its recognized segments alone; a segment without a
  space after trimming is not recognized; and a recognized segment stores its value under
  its name, where it stays unless a later segment has the same name.
\<close>

theorem C4_decoding_total:
  "snd (UnmarshalText c text) = None
   \<and> fst (UnmarshalText c text)
       = fst (UnmarshalText c (Join (filter recognized (Split text CHR '';'')) '';''))
   \<and> (\<not> recognized q \<longrightarrow> UnmarshalText_segment c q = c)
   \<and> (CHR '' '' \<notin> set (TrimSpace b) \<longrightarrow> \<not> recognized b)
   \<and> (Split text CHR '';'' = ps @ p # qs \<and> segment_kv p = Some (k, v)
        \<and> k \<in> set directive_names \<and> k \<notin> set (segment_names qs) \<longrightarrow>
        slot_of k (fst (UnmarshalText c text)) = Some (slot_decode k v))"
proof (intro conjI impI)
  show "snd (UnmarshalText c text) = None" by (simp add: UnmarshalText_def)
next
  let ?ps = "filter recognized (Split text CHR '';'')"
  have "\<forall>p\<in>set ?ps. CHR '';'' \<notin> set p" by (auto dest: Split_parts)
  then have "fst (UnmarshalText c (Join ?ps '';'')) = foldl UnmarshalText_segment c ?ps"
    by (rule Unmarshal_Join)
  then show "fst (UnmarshalText c text) = fst (UnmarshalText c (Join ?ps '';''))"
    by (simp add: UnmarshalText_def foldl_ignored)
next
  assume "\<not> recognized q"
  then show "UnmarshalText_segment c q = c" by (rule segment_ignored)
next
  assume "CHR '' '' \<notin> set (TrimSpace b)"
  then show "\<not> recognized b" by (simp add: recognized_def segment_kv_bare)
next
  assume a: "Split text CHR '';'' = ps @ p # qs \<and> segment_kv p = Some (k, v)
      \<and> k \<in> set directive_names \<and> k \<notin> set (segment_names qs)"
  then have "fst (UnmarshalText c text) = foldl UnmarshalText_segment c (ps @ p # qs)"
    by (simp add: UnmarshalText_def)
  moreover have "slot_of k (foldl UnmarshalText_segment c (ps @ p # qs)) = Some (slot_decode k v)"
    using a by (intro foldl_last_wins) simp_all
  ultimately show "slot_of k (fst (UnmarshalText c text)) = Some (slot_decode k v)"
    by (simp only:)
qed

text \<open>A text with unrecognized, bare and empty segments and a segment for \<open>default-src\<close>.\<close>

theorem C4_decoding_total_witness:
  "snd (UnmarshalText CSP_zero ''img-src *; bogus x; script-src; default-src a b; x-y z;;'') = None
   \<and> filter recognized (Split ''img-src *; bogus x; script-src; default-src a b; x-y z;;'' CHR '';'')
      = [''img-src *'', '' default-src a b'']
   \<and> fst (UnmarshalText CSP_zero ''img-src *; bogus x; script-src; default-src a b; x-y z;;'')
      = fst (UnmarshalText CSP_zero ''img-src *; default-src a b'')
   \<and> \<not> recognized '' bogus x''
   \<and> UnmarshalText_segment Default '' bogus x'' = Default
   \<and> CHR '' '' \<notin> set (TrimSpace '' script-src'')
   \<and> \<not> recognized '' script-src''
   \<and> Split ''img-src *; bogus x; script-src; default-src a b; x-y z;;'' CHR '';''
      = [''img-src *'', '' bogus x'', '' script-src''] @ '' default-src a b'' # ['' x-y z'', [], [] ]
   \<and> segment_kv '' default-src a b'' = Some (defaultSrc, ''a b'')
   \<and> slot_of defaultSrc (fst (UnmarshalText CSP_zero
        ''img-src *; bogus x; script-src; default-src a b; x-y z;;''))
      = Some (SourceSlot [''a'', ''b''])"
proof -
  let ?text = "''img-src *; bogus x; script-src; default-src a b; x-y z;;''"
  have h0: "filter recognized (Split ?text CHR '';'') = [''img-src *'', '' default-src a b'']"
    by code_simp
  have h1: "\<not> recognized '' bogus x''" by code_simp
  have h2: "CHR '' '' \<notin> set (TrimSpace '' script-src'')" by code_simp
  have h3: "Split ?text CHR '';''
      = [''img-src *'', '' bogus x'', '' script-src''] @ '' default-src a b'' # ['' x-y z'', [], [] ]"
    by code_simp
  have h4: "segment_kv '' default-src a b'' = Some (defaultSrc, ''a b'')" by code_simp
  have h5: "defaultSrc \<in> set directive_names" by code_simp
  have h6: "defaultSrc \<notin> set (segment_names ['' x-y z'', [], [] ])" by code_simp
  have e2: "slot_decode defaultSrc ''a b'' = SourceSlot [''a'', ''b'']" by code_simp
  note t1 = C4_decoding_total [of CSP_zero ?text "'' bogus x''" "'' script-src''"
      "[''img-src *'', '' bogus x'', '' script-src'']" "'' default-src a b''" "['' x-y z'', [], [] ]"
      defaultSrc "''a b''"]
  note t2 = C4_decoding_total [of Default ?text "'' bogus x''" "'' script-src''"
      "[''img-src *'', '' bogus x'', '' script-src'']" "'' default-src a b''" "['' x-y z'', [], [] ]"
      defaultSrc "''a b''"]
  have a1: "snd (UnmarshalText CSP_zero ?text) = None"
    by (rule t1 [THEN conjunct1])
  have a2: "fst (UnmarshalText CSP_zero ?text) = fst (UnmarshalText CSP_zero ''img-src *; default-src a b'')"
    using t1 [THEN conjunct2, THEN conjunct1] by (simp only: h0 Join.simps append.simps)
  have a3: "UnmarshalText_segment Default '' bogus x'' = Default"
    using t2 [THEN conjunct2, THEN conjunct2, THEN conjunct1] h1 by (rule mp)
  have a4: "\<not> recognized '' script-src''"
    using t1 [THEN conjunct2, THEN conjunct2, THEN conjunct2, THEN conjunct1] h2 by (rule mp)
  have "slot_of defaultSrc (fst (UnmarshalText CSP_zero ?text)) = Some (slot_decode defaultSrc ''a b'')"
    using t1 [THEN conjunct2, THEN conjunct2, THEN conjunct2, THEN conjunct2] h3 h4 h5 h6 by blast
  then have a5: "slot_of defaultSrc (fst (UnmarshalText CSP_zero ?text)) = Some (SourceSlot [''a'', ''b''])"
    by (simp only: e2)
  show ?thesis
    using h0 a1 a2 h1 a3 h2 a4 h3 h4 a5 by (intro conjI)
qed

text \<open>
  C10: \<open>UnmarshalText\<close> merges into its receiver. A slot whose name is the name of no segment
  with a value keeps the value it had, whatever the policy and the text; the report-only flag
  and the wrapped handler are never touched.
\<close>

theorem C10_decoding_frame:
  "(n \<notin> set (segment_names (Split text CHR '';'')) \<longrightarrow>
      slot_of n (fst (UnmarshalText c text)) = slot_of n c)
   \<and> ReportOnly (fst (UnmarshalText c text)) = ReportOnly c
   \<and> CSP_h (fst (UnmarshalText c text)) = CSP_h c"
  by (simp add: UnmarshalText_def foldl_frame foldl_other)

text \<open>The default policy keeps its \<open>default-src\<close> when a text sets only \<open>img-src\<close>.\<close>

theorem C10_decoding_frame_witness:
  "defaultSrc \<notin> set (segment_names (Split ''img-src *; bogus x'' CHR '';''))
   \<and> slot_of defaultSrc (fst (UnmarshalText Default ''img-src *; bogus x'')) = slot_of defaultSrc Default
   \<and> slot_of imgSrc (fst (UnmarshalText Default ''img-src *; bogus x'')) = Some (SourceSlot [''*''])"
proof -
  have h: "defaultSrc \<notin> set (segment_names (Split ''img-src *; bogus x'' CHR '';''))"
    by code_simp
  have i: "slot_of imgSrc (fst (UnmarshalText Default ''img-src *; bogus x'')) = Some (SourceSlot [''*''])"
    by code_simp
  show ?thesis
    using h i C10_decoding_frame [of defaultSrc "''img-src *; bogus x''" Default] by simp
qed

section \<open>The middleware and the report handler\<close>

lemma append_if: "(if b then p @ [s] else p) = p @ (if b then [s] else [])"
  by simp

lemma policy_entry_simps:
  "policy_entry c defaultSrc = (if DefaultSrc c \<noteq> [] then [Sprintf_s_s defaultSrc (Join (DefaultSrc c) '' '')] else [])"
  "policy_entry c childSrc = (if ChildSrc c \<noteq> [] then [Sprintf_s_s childSrc (Join (ChildSrc c) '' '')] else [])"
  "policy_entry c connectSrc = (if ConnectSrc c \<noteq> [] then [Sprintf_s_s connectSrc (Join (ConnectSrc c) '' '')] else [])"
  "policy_entry c fontSrc = (if FontSrc c \<noteq> [] then [Sprintf_s_s fontSrc (Join (FontSrc c) '' '')] else [])"
  "policy_entry c frameSrc = (if FrameSrc c \<noteq> [] then [Sprintf_s_s frameSrc (Join (FrameSrc c) '' '')] else [])"
  "policy_entry c imgSrc = (if ImgSrc c \<noteq> [] then [Sprintf_s_s imgSrc (Join (ImgSrc c) '' '')] else [])"
  "policy_entry c manifestSrc = (if ManifestSrc c \<noteq> [] then [Sprintf_s_s manifestSrc (Join (ManifestSrc c) '' '')] else [])"
  "policy_entry c mediaSrc = (if MediaSrc c \<noteq> [] then [Sprintf_s_s mediaSrc (Join (MediaSrc c) '' '')] else [])"
  "policy_entry c objectSrc = (if ObjectSrc c \<noteq> [] then [Sprintf_s_s objectSrc (Join (ObjectSrc c) '' '')] else [])"
  "policy_entry c scriptSrc = (if ScriptSrc c \<noteq> [] then [Sprintf_s_s scriptSrc (Join (ScriptSrc c) '' '')] else [])"
  "policy_entry c styleSrc = (if StyleSrc c \<noteq> [] then [Sprintf_s_s styleSrc (Join (StyleSrc c) '' '')] else [])"
  "policy_entry c workerSrc = (if WorkerSrc c \<noteq> [] then [Sprintf_s_s workerSrc (Join (WorkerSrc c) '' '')] else [])"
  "policy_entry c reportTo = (if ReportTo c \<noteq> [] then [Sprintf_s_s reportTo (ReportTo c)] else [])"
  by (simp_all add: policy_entry_def slot_of_def slot_present_def slot_text_def names_neq)

lemma policies_concat: "MarshalText_policies c = concat (map (policy_entry c) directive_names)"
  apply (simp only: MarshalText_policies_def append_if)
  apply (simp only: Let_def)
  apply (simp add: directive_names_def policy_entry_simps SourceList_MarshalText_def split del: if_split cong: if_cong)
  done





lemma syntax_error_example: "json_Unmarshal ''{'' cspReport_zero = (cspReport_zero, Some SyntaxError)"
  by code_simp

lemma example_body_decodes:
  "json_Unmarshal example_body cspReport_zero = (\<lparr>cspReport_Report = example_report\<rparr>, None)"
  by code_simp

lemma Header_Get_report_request:
  "Header_Get (ReqHeader (report_request body)) ''Content-Type'' = ReportContentType"
  by (simp add: report_request_def Header_Get_def)

lemma ReqBody_report_request: "ReqBody (report_request body) = (body, None)"
  by (simp add: report_request_def)

text \<open>
  C2: the failures of the report handler. A content type other than \<open>application/csp-report\<close>:
  the error hook is called with 415, the body is not read, the sink is not called. A body
  that cannot be read, or that does not decode: the hook is called with 400, the sink is not
  called. A sink that returns an error: the hook is called with 500. In every run the hook is
  called at most once, and when it is called the response is what it left.
\<close>

theorem C2_report_handler_failures:
  "(Header_Get (ReqHeader r) ''Content-Type'' \<noteq> ReportContentType \<longrightarrow>
      RouteHandler_func reportHandler errorHandler w r =
        (errorHandler w r 415 Errorf_content_type, [ErrorCall 415 Errorf_content_type]))
   \<and> (Header_Get (ReqHeader r) ''Content-Type'' = ReportContentType \<and> ReqBody r = (body, Some err) \<longrightarrow>
      RouteHandler_func reportHandler errorHandler w r =
        (errorHandler w r 400 err, [ReadAll, ErrorCall 400 err, Close]))
   \<and> (Header_Get (ReqHeader r) ''Content-Type'' = ReportContentType \<and> ReqBody r = (body, None)
        \<and> json_Unmarshal body cspReport_zero = (rep, Some err) \<longrightarrow>
      RouteHandler_func reportHandler errorHandler w r =
        (errorHandler w r 400 err, [ReadAll, ErrorCall 400 err, Close]))
   \<and> (Header_Get (ReqHeader r) ''Content-Type'' = ReportContentType \<and> ReqBody r = (body, None)
        \<and> json_Unmarshal body cspReport_zero = (rep, None)
        \<and> reportHandler (cspReport_Report rep) = Some err \<longrightarrow>
      RouteHandler_func reportHandler errorHandler w r =
        (errorHandler w r 500 err,
         [ReadAll, ReportCall (cspReport_Report rep), ErrorCall 500 err, Close]))
   \<and> length (error_calls (snd (RouteHandler_func reportHandler errorHandler w r))) \<le> 1
   \<and> (error_calls (snd (RouteHandler_func reportHandler errorHandler w r)) = [(status, e)] \<longrightarrow>
        fst (RouteHandler_func reportHandler errorHandler w r) = errorHandler w r status e)"
  by (auto simp: RouteHandler_func_def StatusUnsupportedMediaType_def StatusBadRequest_def
      StatusInternalServerError_def split: prod.splits option.splits)

text \<open>One request for each failure, with the default hooks.\<close>

theorem C2_report_handler_failures_witness:
  "RouteHandler_func defaultLogReporter_Report defaultErrorHandler_Error NewRecorder
      \<lparr>ReqHeader = [''Content-Type'' \<mapsto> [''application/json''] ], ReqBody = (example_body, None)\<rparr>
     = (defaultErrorHandler_Error NewRecorder
          \<lparr>ReqHeader = [''Content-Type'' \<mapsto> [''application/json''] ], ReqBody = (example_body, None)\<rparr>
          415 Errorf_content_type,
        [ErrorCall 415 Errorf_content_type])
   \<and> RouteHandler_func defaultLogReporter_Report defaultErrorHandler_Error NewRecorder
      \<lparr>ReqHeader = [''Content-Type'' \<mapsto> [ReportContentType] ], ReqBody = ([], Some ''unexpected EOF'')\<rparr>
     = (defaultErrorHandler_Error NewRecorder
          \<lparr>ReqHeader = [''Content-Type'' \<mapsto> [ReportContentType] ], ReqBody = ([], Some ''unexpected EOF'')\<rparr>
          400 ''unexpected EOF'',
        [ReadAll, ErrorCall 400 ''unexpected EOF'', Close])
   \<and> RouteHandler_func defaultLogReporter_Report defaultErrorHandler_Error NewRecorder (report_request ''{'')
     = (defaultErrorHandler_Error NewRecorder (report_request ''{'') 400 SyntaxError,
        [ReadAll, ErrorCall 400 SyntaxError, Close])
   \<and> RouteHandler_func (\<lambda>rep. Some ''sink failed'') defaultErrorHandler_Error NewRecorder
        (report_request example_body)
     = (defaultErrorHandler_Error NewRecorder (report_request example_body) 500 ''sink failed'',
        [ReadAll, ReportCall example_report, ErrorCall 500 ''sink failed'', Close])
   \<and> error_calls (snd (RouteHandler_func (\<lambda>rep. Some ''sink failed'') defaultErrorHandler_Error
        NewRecorder (report_request example_body))) = [(500, ''sink failed'')]
   \<and> fst (RouteHandler_func (\<lambda>rep. Some ''sink failed'') defaultErrorHandler_Error
        NewRecorder (report_request example_body))
     = defaultErrorHandler_Error NewRecorder (report_request example_body) 500 ''sink failed''"
proof -
  have h1: "Header_Get (ReqHeader \<lparr>ReqHeader = [''Content-Type'' \<mapsto> [''application/json''] ],
      ReqBody = (example_body, None)\<rparr>) ''Content-Type'' \<noteq> ReportContentType"
    by (simp add: Header_Get_def ReportContentType_def)
  have h2: "Header_Get (ReqHeader \<lparr>ReqHeader = [''Content-Type'' \<mapsto> [ReportContentType] ],
      ReqBody = ([], Some ''unexpected EOF'')\<rparr>) ''Content-Type'' = ReportContentType"
    by (simp add: Header_Get_def)
  show ?thesis
    using h1 h2
      C2_report_handler_failures [of
        "\<lparr>ReqHeader = [''Content-Type'' \<mapsto> [''application/json''] ], ReqBody = (example_body, None)\<rparr>"
        defaultLogReporter_Report defaultErrorHandler_Error NewRecorder]
      C2_report_handler_failures [of
        "\<lparr>ReqHeader = [''Content-Type'' \<mapsto> [ReportContentType] ], ReqBody = ([], Some ''unexpected EOF'')\<rparr>"
        defaultLogReporter_Report defaultErrorHandler_Error NewRecorder "[]" "''unexpected EOF''"]
      C2_report_handler_failures [of "report_request ''{''"
        defaultLogReporter_Report defaultErrorHandler_Error NewRecorder "''{''" SyntaxError cspReport_zero]
      C2_report_handler_failures [of "report_request example_body"
        "\<lambda>rep. Some ''sink failed''" defaultErrorHandler_Error NewRecorder example_body "''sink failed''"
        "\<lparr>cspReport_Report = example_report\<rparr>"]
    by (simp add: Header_Get_report_request ReqBody_report_request syntax_error_example
        example_body_decodes)
qed

lemma cspReport_member_skip:
  "''csp-report'' \<notin> set (map (foldName \<circ> fst) kvs) \<Longrightarrow> foldl cspReport_member st kvs = st"
  by (induction kvs arbitrary: st) (auto simp: cspReport_member_def split: prod.splits)

lemma parse_push_limit: "maxNestingDepth \<le> int (length stk) \<Longrightarrow> parse_push e f stk = None"
  by (simp add: parse_push_def)

text \<open>
  C9, as the code has it: a body that the decoder reads as the JSON value null, or as an
  object none of whose keys selects the field \<open>csp-report\<close>, decodes to the zero report. The
  handler does not call the error hook with 400: it calls the sink once, with the zero
  report, and answers 200 when the sink returns nil; when the sink returns an error, the
  hook is called with 500. A body that the decoder reads as a value of another kind (an
  array, a string, a number, a boolean) fails with 400, the sink not called.
\<close>

theorem C9_body_without_envelope_key:
  assumes "Header_Get (ReqHeader r) ''Content-Type'' = ReportContentType"
    and "ReqBody r = (body, None)"
    and "json_parse body = Some v"
  shows "(v = JNull \<or> (\<exists>kvs. v = JObject kvs \<and> ''csp-report'' \<notin> set (map (foldName \<circ> fst) kvs)) \<longrightarrow>
            report_calls (snd (RouteHandler_func reportHandler errorHandler w r)) = [Report_zero]
          \<and> 400 \<notin> set (map fst (error_calls (snd (RouteHandler_func reportHandler errorHandler w r))))
          \<and> (reportHandler Report_zero = None \<longrightarrow>
                RouteHandler_func reportHandler errorHandler w r =
                  (WriteHeader w 200, [ReadAll, ReportCall Report_zero, Close]))
          \<and> (reportHandler Report_zero = Some e \<longrightarrow>
                RouteHandler_func reportHandler errorHandler w r =
                  (errorHandler w r 500 e, [ReadAll, ReportCall Report_zero, ErrorCall 500 e, Close])))
       \<and> (v \<noteq> JNull \<and> (\<forall>kvs. v \<noteq> JObject kvs) \<longrightarrow>
            (\<exists>err. RouteHandler_func reportHandler errorHandler w r =
               (errorHandler w r 400 err, [ReadAll, ErrorCall 400 err, Close])))"
proof (intro conjI impI)
  assume a: "v = JNull \<or> (\<exists>kvs. v = JObject kvs \<and> ''csp-report'' \<notin> set (map (foldName \<circ> fst) kvs))"
  then have "decode_cspReport v (cspReport_zero, None) = (cspReport_zero, None)"
    by (auto simp: decode_cspReport_def cspReport_member_skip)
  then have u: "json_Unmarshal body cspReport_zero = (cspReport_zero, None)"
    using assms(3) by (simp add: json_Unmarshal_def)
  show "report_calls (snd (RouteHandler_func reportHandler errorHandler w r)) = [Report_zero]"
    using u assms(1,2)
    by (cases "reportHandler Report_zero") (simp_all add: RouteHandler_func_def cspReport_zero_def)
  show "400 \<notin> set (map fst (error_calls (snd (RouteHandler_func reportHandler errorHandler w r))))"
    using u assms(1,2)
    by (cases "reportHandler Report_zero")
      (simp_all add: RouteHandler_func_def cspReport_zero_def StatusInternalServerError_def)
  show "RouteHandler_func reportHandler errorHandler w r =
      (WriteHeader w 200, [ReadAll, ReportCall Report_zero, Close])"
    if "reportHandler Report_zero = None"
    using that u assms(1,2) by (simp add: RouteHandler_func_def cspReport_zero_def StatusOK_def)
  show "RouteHandler_func reportHandler errorHandler w r =
      (errorHandler w r 500 e, [ReadAll, ReportCall Report_zero, ErrorCall 500 e, Close])"
    if "reportHandler Report_zero = Some e"
    using that u assms(1,2)
    by (simp add: RouteHandler_func_def cspReport_zero_def StatusInternalServerError_def)
next
  assume a: "v \<noteq> JNull \<and> (\<forall>kvs. v \<noteq> JObject kvs)"
  then have "decode_cspReport v (cspReport_zero, None) = (cspReport_zero, Some UnmarshalTypeError)"
    by (cases v) (simp_all add: decode_cspReport_def saveError_def)
  then have "json_Unmarshal body cspReport_zero = (cspReport_zero, Some UnmarshalTypeError)"
    using assms(3) by (simp add: json_Unmarshal_def)
  with assms(1,2) have "RouteHandler_func reportHandler errorHandler w r =
      (errorHandler w r 400 UnmarshalTypeError, [ReadAll, ErrorCall 400 UnmarshalTypeError, Close])"
    by (simp add: RouteHandler_func_def StatusBadRequest_def)
  then show "\<exists>err. RouteHandler_func reportHandler errorHandler w r =
      (errorHandler w r 400 err, [ReadAll, ErrorCall 400 err, Close])" by blast
qed

lemma nested_key_parses:
  "json_parse ''{\"report\":{\"csp-report\":{\"referrer\":\"x\"}}}'' =
     Some (JObject [(''report'', JObject [(''csp-report'', JObject [(''referrer'', JString ''x'')])])])"
  by code_simp

lemma number_parses: "json_parse ''42'' = Some (JNumber ''42'')"
  by code_simp

lemma foldName_report: "foldName ''report'' = ''report''"
  by code_simp

text \<open>
  A report under another key gives the zero report, with a sink that accepts it and with a
  sink that refuses it; a number gives 400.
\<close>

theorem C9_body_without_envelope_key_witness:
  "RouteHandler_func defaultLogReporter_Report defaultErrorHandler_Error NewRecorder
      (report_request ''{\"report\":{\"csp-report\":{\"referrer\":\"x\"}}}'')
     = (WriteHeader NewRecorder 200, [ReadAll, ReportCall Report_zero, Close])
   \<and> RouteHandler_func (\<lambda>rep. Some ''sink failed'') defaultErrorHandler_Error NewRecorder
      (report_request ''{\"report\":{\"csp-report\":{\"referrer\":\"x\"}}}'')
     = (defaultErrorHandler_Error NewRecorder
          (report_request ''{\"report\":{\"csp-report\":{\"referrer\":\"x\"}}}'') 500 ''sink failed'',
        [ReadAll, ReportCall Report_zero, ErrorCall 500 ''sink failed'', Close])
   \<and> report_calls (snd (RouteHandler_func (\<lambda>rep. Some ''sink failed'') defaultErrorHandler_Error
        NewRecorder (report_request ''{\"report\":{\"csp-report\":{\"referrer\":\"x\"}}}'')))
     = [Report_zero]
   \<and> map fst (error_calls (snd (RouteHandler_func defaultLogReporter_Report defaultErrorHandler_Error
        NewRecorder (report_request ''42''))))
     = [400]
   \<and> report_calls (snd (RouteHandler_func defaultLogReporter_Report defaultErrorHandler_Error
        NewRecorder (report_request ''42''))) = []"
proof -
  note t1 = C9_body_without_envelope_key [OF Header_Get_report_request ReqBody_report_request
      nested_key_parses, of defaultLogReporter_Report defaultErrorHandler_Error NewRecorder]
  note t2 = C9_body_without_envelope_key [OF Header_Get_report_request ReqBody_report_request
      nested_key_parses, of "\<lambda>rep. Some ''sink failed''" defaultErrorHandler_Error NewRecorder
      "''sink failed''"]
  note t3 = C9_body_without_envelope_key [OF Header_Get_report_request ReqBody_report_request
      number_parses, of defaultLogReporter_Report defaultErrorHandler_Error NewRecorder]
  have k: "''csp-report'' \<notin> set (map (foldName \<circ> fst)
      [(''report'', JObject [(''csp-report'', JObject [(''referrer'', JString ''x'')])])])"
    by (simp add: foldName_report)
  have a1: "RouteHandler_func defaultLogReporter_Report defaultErrorHandler_Error NewRecorder
      (report_request ''{\"report\":{\"csp-report\":{\"referrer\":\"x\"}}}'')
     = (WriteHeader NewRecorder 200, [ReadAll, ReportCall Report_zero, Close])"
    using t1 k by (simp add: defaultLogReporter_Report_def)
  have a2: "RouteHandler_func (\<lambda>rep. Some ''sink failed'') defaultErrorHandler_Error NewRecorder
      (report_request ''{\"report\":{\"csp-report\":{\"referrer\":\"x\"}}}'')
     = (defaultErrorHandler_Error NewRecorder
          (report_request ''{\"report\":{\"csp-report\":{\"referrer\":\"x\"}}}'') 500 ''sink failed'',
        [ReadAll, ReportCall Report_zero, ErrorCall 500 ''sink failed'', Close])"
    using t2 k by simp
  have a3: "report_calls (snd (RouteHandler_func (\<lambda>rep. Some ''sink failed'') defaultErrorHandler_Error
        NewRecorder (report_request ''{\"report\":{\"csp-report\":{\"referrer\":\"x\"}}}'')))
     = [Report_zero]"
    using t2 k by simp
  from t3 obtain err where "RouteHandler_func defaultLogReporter_Report defaultErrorHandler_Error
      NewRecorder (report_request ''42'')
     = (defaultErrorHandler_Error NewRecorder (report_request ''42'') 400 err,
        [ReadAll, ErrorCall 400 err, Close])"
    by auto
  then have a4: "map fst (error_calls (snd (RouteHandler_func defaultLogReporter_Report
        defaultErrorHandler_Error NewRecorder (report_request ''42'')))) = [400]"
    and a5: "report_calls (snd (RouteHandler_func defaultLogReporter_Report defaultErrorHandler_Error
        NewRecorder (report_request ''42''))) = []"
    by simp_all
  show ?thesis using a1 a2 a3 a4 a5 by (intro conjI)
qed

text \<open>
  The empty array is valid JSON without a \<open>csp-report\<close> key, and the handler answers 400
  without calling the sink; an object with the key \<open>CSP-Report\<close> has no key \<open>csp-report\<close>, and
  the sink gets the report under it.
\<close>

theorem C9_array_body_counterexample:
  "json_parse ''[]'' = Some (JArray [])
   \<and> map fst (error_calls (snd (RouteHandler_func defaultLogReporter_Report defaultErrorHandler_Error
        NewRecorder (report_request ''[]'')))) = [400]
   \<and> report_calls (snd (RouteHandler_func defaultLogReporter_Report defaultErrorHandler_Error
        NewRecorder (report_request ''[]''))) = []
   \<and> report_calls (snd (RouteHandler_func defaultLogReporter_Report defaultErrorHandler_Error
        NewRecorder (report_request ''{\"CSP-Report\":{\"referrer\":\"x\"}}'')))
      = [Report_zero\<lparr>Referrer := ''x''\<rparr>]"
  by code_simp

text \<open>
  C6: for the example envelope of the specification, sent with the content type
  \<open>application/csp-report\<close>, a sink that accepts the report is called once, with the report
  of exactly the example's five values and nothing else, and the response has status 200
  and an empty body.
\<close>

theorem C6_example_report:
  "reportHandler example_report = None \<Longrightarrow>
   RouteHandler_func reportHandler errorHandler NewRecorder (report_request example_body) =
     (NewRecorder\<lparr>wroteHeader := True, Code := 200\<rparr>, [ReadAll, ReportCall example_report, Close])"
  by (simp add: RouteHandler_func_def Header_Get_report_request ReqBody_report_request
      example_body_decodes WriteHeader_def NewRecorder_def StatusOK_def)

text \<open>The default sink accepts every report.\<close>

theorem C6_example_report_witness:
  "defaultLogReporter_Report example_report = None \<and>
   RouteHandler_func defaultLogReporter_Report defaultErrorHandler_Error NewRecorder
       (report_request example_body) =
     (\<lparr>Header = Map.empty, wroteHeader = True, Code = 200, Body = []\<rparr>,
      [ReadAll, ReportCall example_report, Close])"
  using C6_example_report [of defaultLogReporter_Report defaultErrorHandler_Error]
  by (simp add: defaultLogReporter_Report_def NewRecorder_def)

text \<open>
  C8, what the code does: the default error hook writes the message first, which sends
  status 200, and the status it was given afterwards, which is then ignored. On a fresh
  response the body is the message and the status is 200, whatever status was passed.
\<close>

theorem C8_default_error_hook:
  "defaultErrorHandler_Error NewRecorder r status err =
     NewRecorder\<lparr>wroteHeader := True, Code := 200, Body := err\<rparr>"
  by (simp add: defaultErrorHandler_Error_def Write_def WriteHeader_def NewRecorder_def)

section \<open>Names in the encoded text\<close>

lemma names_facts:
  "list_all (\<lambda>n. 3 \<le> length n \<and> CHR '';'' \<notin> set n \<and> CHR '' '' \<notin> set n \<and> TrimSpace n = n
      \<and> \<not> asciiSpace (last n) \<and> last n \<notin> set (concat unicodeSpace)) directive_names"
  by code_simp

lemma names_sublist:
  "list_all (\<lambda>n. list_all (\<lambda>m. \<not> sublist n m \<or> n = m) directive_names) directive_names"
  by code_simp

lemma name_props:
  assumes "n \<in> set directive_names"
  shows "3 \<le> length n" "CHR '';'' \<notin> set n" "CHR '' '' \<notin> set n" "TrimSpace n = n"
    "\<not> asciiSpace (last n)" "last n \<notin> set (concat unicodeSpace)" "n \<noteq> []"
  using assms names_facts by (auto simp: list_all_iff)

lemma name_sublist:
  "n \<in> set directive_names \<Longrightarrow> m \<in> set directive_names \<Longrightarrow> sublist n m \<Longrightarrow> n = m"
  using names_sublist by (auto simp: list_all_iff)

lemma firstSpace_append_long: "3 \<le> length t \<Longrightarrow> firstSpace (t @ r) = firstSpace t"
  by (cases t; cases "tl t"; cases "tl (tl t)") (auto simp: firstSpace_def)

lemma firstSpace_name: "n \<in> set directive_names \<Longrightarrow> firstSpace (n @ r) = 0"
  using TrimSpace_fixed [of n] by (simp add: name_props firstSpace_append_long)

text \<open>The bytes of the white space rune at the end of a string.\<close>

lemma drop_last: "s \<noteq> [] \<Longrightarrow> drop (length s - Suc 0) s = [last s]"
  by (induction s rule: rev_induct) auto

lemma lastSpace_bytes:
  assumes "lastSpace s \<noteq> 0" and "x \<in> set (drop (length s - lastSpace s) s)"
  shows "asciiSpace x \<or> x \<in> set (concat unicodeSpace)"
proof -
  from assms(1) have ne: "s \<noteq> []" by auto
  consider "asciiSpace (last s)" "lastSpace s = 1"
    | "drop (length s - 2) s \<in> set unicodeSpace" "lastSpace s = 2"
    | "drop (length s - 3) s \<in> set unicodeSpace" "lastSpace s = 3"
    using assms(1) ne by (auto simp: lastSpace_def split: if_splits)
  then show ?thesis
  proof cases
    case 1
    with assms(2) ne show ?thesis by (simp add: drop_last)
  next
    case 2
    with assms(2) show ?thesis by auto
  next
    case 3
    with assms(2) show ?thesis by auto
  qed
qed

lemma TrimRight_keeps:
  assumes "\<not> asciiSpace c" and "c \<notin> set (concat unicodeSpace)"
  shows "\<exists>B'. TrimRight (X @ c # B) = X @ c # B'"
proof (induction "X @ c # B" arbitrary: B rule: TrimRight.induct)
  case 1
  show ?case
  proof (cases "lastSpace (X @ c # B) = 0")
    case True
    then show ?thesis by (simp add: TrimRight_id)
  next
    case False
    let ?s = "X @ c # B"
    let ?w = "lastSpace ?s"
    have "?w \<le> length B"
    proof (rule ccontr)
      assume "\<not> ?w \<le> length B"
      then have "length ?s - ?w \<le> length X" by simp
      then have "c \<in> set (drop (length ?s - ?w) ?s)"
        by (simp add: drop_append)
      with False assms lastSpace_bytes [of ?s c] show False by blast
    qed
    then have t: "take (length ?s - ?w) ?s = X @ c # take (length B - ?w) B"
      by (simp add: take_Cons' )
    from False have "TrimRight ?s = TrimRight (take (length ?s - ?w) ?s)" by (rule TrimRight_step)
    with t 1 [OF False t] show ?thesis by simp
  qed
qed

lemma TrimLeft_drop: "\<exists>k. TrimLeft s = drop k s"
proof (induction s rule: TrimLeft.induct)
  case (1 s)
  show ?case
  proof (cases "firstSpace s = 0")
    case True
    then have "TrimLeft s = drop 0 s" by (simp add: TrimLeft_id)
    then show ?thesis by blast
  next
    case False
    with 1 obtain k where "TrimLeft (drop (firstSpace s) s) = drop k (drop (firstSpace s) s)" by blast
    with False have "TrimLeft s = drop (firstSpace s + k) s"
      by (simp add: TrimLeft_step add.commute)
    then show ?thesis by blast
  qed
qed

lemma TrimRight_take: "\<exists>k. TrimRight s = take k s"
proof (induction s rule: TrimRight.induct)
  case (1 s)
  show ?case
  proof (cases "lastSpace s = 0")
    case True
    then have "TrimRight s = take (length s) s" by (simp add: TrimRight_id)
    then show ?thesis by blast
  next
    case False
    with 1 obtain k where "TrimRight (take (length s - lastSpace s) s) = take k (take (length s - lastSpace s) s)"
      by blast
    with False have "TrimRight s = take (min k (length s - lastSpace s)) s"
      by (simp add: TrimRight_step)
    then show ?thesis by blast
  qed
qed

lemma sublist_TrimSpace: "sublist (TrimSpace s) s"
proof -
  obtain k where k: "TrimLeft s = drop k s" using TrimLeft_drop by blast
  obtain j where j: "TrimRight (TrimLeft s) = take j (TrimLeft s)" using TrimRight_take by blast
  have "sublist (take j (drop k s)) (drop k s)" by (rule sublist_take)
  moreover have "sublist (drop k s) s" by (rule sublist_drop)
  ultimately have "sublist (take j (drop k s)) s" by (rule sublist_order.order_trans)
  with k j show ?thesis by (simp add: TrimSpace_def)
qed

lemma sublist_sep:
  assumes "c \<notin> set d" and "sublist d (a @ c # b)"
  shows "sublist d a \<or> sublist d b"
proof -
  from assms(2) obtain ps ss where e: "a @ c # b = ps @ d @ ss" by (auto simp: sublist_def)
  then consider us where "a = ps @ us" "us @ c # b = d @ ss" | us where "a @ us = ps" "c # b = us @ d @ ss"
    by (auto simp: append_eq_append_conv2)
  then show ?thesis
  proof cases
    case 1
    then consider vs where "us = d @ vs" | vs where "us @ vs = d" "c # b = vs @ ss"
      by (auto simp: append_eq_append_conv2)
    then show ?thesis
    proof cases
      case 1
      with \<open>a = ps @ us\<close> have "a = ps @ d @ vs" by simp
      then show ?thesis by simp
    next
      case 2
      show ?thesis
      proof (cases vs)
        case Nil
        with 2 \<open>a = ps @ us\<close> have "a = ps @ d" by simp
        then show ?thesis by simp
      next
        case (Cons v vs')
        with 2 assms(1) show ?thesis by auto
      qed
    qed
  next
    case 2
    show ?thesis
    proof (cases us)
      case Nil
      with 2 assms(1) show ?thesis
        by (cases d) (auto simp: sublist_def)
    next
      case (Cons u us')
      with 2 have "b = us' @ d @ ss" by simp
      then show ?thesis by simp
    qed
  qed
qed

lemma sublist_Join1:
  assumes "c \<notin> set d" and "d \<noteq> []"
  shows "sublist d (Join es [c]) \<Longrightarrow> \<exists>e\<in>set es. sublist d e"
proof (induction es "[c]" rule: Join.induct)
  case 1
  with assms(2) show ?case by simp
next
  case (2 x)
  then show ?case by simp
next
  case (3 x y ys)
  then have "sublist d (x @ c # Join (y # ys) [c])" by simp
  with assms(1) have "sublist d x \<or> sublist d (Join (y # ys) [c])" by (rule sublist_sep)
  with 3 show ?case by auto
qed

lemma sublist_Join2:
  assumes "c \<notin> set d" and "c' \<notin> set d" and "d \<noteq> []"
  shows "sublist d (Join es [c, c']) \<Longrightarrow> \<exists>e\<in>set es. sublist d e"
proof (induction es "[c, c']" rule: Join.induct)
  case 1
  with assms(3) show ?case by simp
next
  case (2 x)
  then show ?case by simp
next
  case (3 x y ys)
  then have "sublist d (x @ c # (c' # Join (y # ys) [c, c']))" by simp
  with assms(1) have "sublist d x \<or> sublist d ([] @ c' # Join (y # ys) [c, c'])"
    using sublist_sep by fastforce
  then have "sublist d x \<or> sublist d [] \<or> sublist d (Join (y # ys) [c, c'])"
    using sublist_sep [OF assms(2)] by blast
  with 3 assms(3) show ?case by auto
qed

lemma sublist_Join_mem: "e \<in> set es \<Longrightarrow> sublist e (Join es sep)"
proof (induction es sep rule: Join.induct)
  case (1 sep)
  then show ?case by simp
next
  case (2 x sep)
  then show ?case by simp
next
  case (3 x y ys sep)
  show ?case
  proof (cases "e = x")
    case True
    then show ?thesis by simp
  next
    case False
    with 3 have "sublist e (Join (y # ys) sep)" by simp
    then obtain ps ss where "Join (y # ys) sep = ps @ e @ ss" by (auto simp: sublist_def)
    then have "Join (x # y # ys) sep = (x @ sep @ ps) @ e @ ss" by simp
    then show ?thesis unfolding sublist_def by blast
  qed
qed

lemma policy_entry_cases:
  "e \<in> set (policy_entry c n) \<Longrightarrow>
   \<exists>s. slot_of n c = Some s \<and> slot_present s \<and> e = n @ CHR '' '' # slot_text s"
  by (cases "slot_of n c") (auto simp: policy_entry_def Sprintf_s_s_def split: if_splits)

lemma policy_entry_present:
  "slot_of n c = Some s \<Longrightarrow> slot_present s \<Longrightarrow> policy_entry c n = [n @ CHR '' '' # slot_text s]"
  by (simp add: policy_entry_def Sprintf_s_s_def)

lemma policy_entry_absent: "\<not> present n c \<Longrightarrow> policy_entry c n = []"
  by (auto simp: policy_entry_def present_def split: option.splits)

lemma policies_mem:
  "e \<in> set (MarshalText_policies c) \<longleftrightarrow> (\<exists>n\<in>set directive_names. e \<in> set (policy_entry c n))"
  by (simp add: policies_concat)

lemma slot_of_Some_name: "slot_of n c = Some s \<Longrightarrow> n \<in> set directive_names"
  by (auto simp: slot_of_def directive_names_def split: if_splits)

lemma slot_values:
  "slot_of n c = Some (SourceSlot l) \<Longrightarrow> set l \<subseteq> set (policy_tokens c)"
  "slot_of n c = Some (ScalarSlot v) \<Longrightarrow> v = ReportTo c"
  by (auto simp: slot_of_def policy_tokens_def split: if_splits)

lemma slot_kind:
  "slot_of n c = Some (SourceSlot l) \<Longrightarrow> n \<noteq> reportTo"
  "slot_of n c = Some (ScalarSlot v) \<Longrightarrow> n = reportTo"
  by (auto simp: slot_of_def names_neq split: if_splits)

lemma slot_text_sublist:
  assumes "slot_of m c = Some s" and "sublist n (slot_text s)" and "CHR '' '' \<notin> set n" and "n \<noteq> []"
  shows "\<exists>t\<in>set (policy_values c). sublist n t"
proof (cases s)
  case (SourceSlot l)
  with assms(2) have "sublist n (Join l '' '')" by (simp add: slot_text_def)
  with assms(3,4) obtain t where "t \<in> set l" "sublist n t" using sublist_Join1 by blast
  moreover have "set l \<subseteq> set (policy_tokens c)" using assms(1) SourceSlot by (simp add: slot_values)
  ultimately show ?thesis by (auto simp: policy_values_def)
next
  case (ScalarSlot v)
  with assms(1) have "v = ReportTo c" by (simp add: slot_values)
  with assms(2) ScalarSlot show ?thesis by (auto simp: policy_values_def slot_text_def)
qed

lemma Join_starts_with_name:
  assumes "MarshalText_policies c \<noteq> []"
  shows "\<exists>n\<in>set directive_names. \<exists>r. Join (MarshalText_policies c) sep = n @ r"
proof -
  from assms obtain e es where es: "MarshalText_policies c = e # es" by (cases "MarshalText_policies c") auto
  then have "e \<in> set (MarshalText_policies c)" by simp
  then obtain n where n1: "n \<in> set directive_names" "e \<in> set (policy_entry c n)"
    unfolding policies_mem by blast
  from n1(2) obtain s where "e = n @ CHR '' '' # slot_text s"
    using policy_entry_cases by blast
  with n1(1) have n: "n \<in> set directive_names" "e = n @ CHR '' '' # slot_text s" by simp_all
  have "Join (e # es) sep = n @ (CHR '' '' # slot_text s @ (if es = [] then [] else sep @ Join es sep))"
    using n by (simp add: Join_Cons)
  with es n(1) show ?thesis by auto
qed

lemma TrimLeft_policies:
  "TrimLeft (Join (MarshalText_policies c) sep) = Join (MarshalText_policies c) sep"
proof (cases "MarshalText_policies c = []")
  case True
  then show ?thesis by (simp add: TrimLeft_id)
next
  case False
  then obtain n r where "n \<in> set directive_names" "Join (MarshalText_policies c) sep = n @ r"
    using Join_starts_with_name by blast
  then show ?thesis by (simp add: TrimLeft_id firstSpace_name)
qed

lemma present_in_text:
  assumes "present n c"
  shows "sublist n (fst (MarshalText c))"
proof -
  from assms obtain s where s: "slot_of n c = Some s" "slot_present s"
    by (auto simp: present_def split: option.splits)
  then have n: "n \<in> set directive_names" by (simp add: slot_of_Some_name)
  let ?e = "n @ CHR '' '' # slot_text s"
  have "?e \<in> set (policy_entry c n)" using s by (simp add: policy_entry_present)
  with n have "?e \<in> set (MarshalText_policies c)" unfolding policies_mem by blast
  then have "sublist ?e (Join (MarshalText_policies c) ''; '')" by (rule sublist_Join_mem)
  then obtain A B where J: "Join (MarshalText_policies c) ''; '' = A @ ?e @ B"
    by (auto simp: sublist_def)
  from n have "n \<noteq> []" by (simp add: name_props)
  then have nl: "n = butlast n @ [last n]" by simp
  have "Join (MarshalText_policies c) ''; '' = (A @ butlast n) @ last n # (CHR '' '' # slot_text s @ B)"
    using J nl by (metis append_Cons append_Nil append_assoc)
  moreover obtain B' where "TrimRight ((A @ butlast n) @ last n # (CHR '' '' # slot_text s @ B))
      = (A @ butlast n) @ last n # B'"
    using TrimRight_keeps [OF name_props(5) [OF n] name_props(6) [OF n] ] by blast
  ultimately have "TrimRight (Join (MarshalText_policies c) ''; '') = A @ n @ B'"
    using nl by (metis append_Cons append_Nil append_assoc)
  then show ?thesis by (simp add: MarshalText_def TrimSpace_def TrimLeft_policies)
qed

lemma text_to_present:
  assumes n: "n \<in> set directive_names"
    and sub: "sublist n (fst (MarshalText c))"
    and vals: "\<forall>t\<in>set (policy_values c). \<not> sublist n t"
  shows "present n c"
proof -
  have np: "CHR '';'' \<notin> set n" "CHR '' '' \<notin> set n" "n \<noteq> []" using n by (simp_all add: name_props)
  have "sublist (fst (MarshalText c)) (Join (MarshalText_policies c) ''; '')"
    by (simp add: MarshalText_def sublist_TrimSpace)
  with sub have "sublist n (Join (MarshalText_policies c) ''; '')" by (rule sublist_order.order_trans)
  then have "\<exists>e\<in>set (MarshalText_policies c). sublist n e"
    by (rule sublist_Join2 [OF np(1) np(2) np(3)])
  then obtain e where e: "e \<in> set (MarshalText_policies c)" "sublist n e" by blast
  from e(1) obtain m where m1: "m \<in> set directive_names" "e \<in> set (policy_entry c m)"
    unfolding policies_mem by blast
  from m1(2) obtain s where m2: "slot_of m c = Some s" "slot_present s" "e = m @ CHR '' '' # slot_text s"
    using policy_entry_cases by blast
  note m = m1(1) m2
  from e(2) m2(3) have "sublist n (m @ CHR '' '' # slot_text s)" by simp
  with np(2) have "sublist n m \<or> sublist n (slot_text s)" by (rule sublist_sep)
  then show ?thesis
  proof
    assume "sublist n m"
    with n m(1) have "n = m" by (rule name_sublist)
    with m show ?thesis by (simp add: present_def)
  next
    assume "sublist n (slot_text s)"
    with m2(1) have "\<exists>t\<in>set (policy_values c). sublist n t"
      using np(2,3) by (rule slot_text_sublist)
    with vals show ?thesis by blast
  qed
qed

lemma nothing_present:
  assumes "\<forall>n\<in>set directive_names. \<not> present n c"
  shows "MarshalText c = ([], None)"
proof -
  have "MarshalText_policies c = []"
    using assms by (simp add: policies_concat policy_entry_absent)
  then show ?thesis by (simp add: MarshalText_def TrimSpace_def TrimLeft_id TrimRight_id)
qed

text \<open>
  C5, as the code has it: the name of a present directive always occurs in the encoded text;
  a directive's name that occurs in the text is the name of a present directive, provided
  that no source token and not the scalar of the policy contains that name; a policy with no
  present directive encodes to the empty text; and the error is nil for every policy.
\<close>

theorem C5_presence:
  "(present n c \<longrightarrow> sublist n (fst (MarshalText c)))
   \<and> (n \<in> set directive_names \<and> sublist n (fst (MarshalText c))
        \<and> (\<forall>t\<in>set (policy_values c). \<not> sublist n t) \<longrightarrow> present n c)
   \<and> ((\<forall>n\<in>set directive_names. \<not> present n c) \<longrightarrow> MarshalText c = ([], None))
   \<and> snd (MarshalText c) = None"
proof (intro conjI impI)
  assume "present n c"
  then show "sublist n (fst (MarshalText c))" by (rule present_in_text)
next
  assume "n \<in> set directive_names \<and> sublist n (fst (MarshalText c))
      \<and> (\<forall>t\<in>set (policy_values c). \<not> sublist n t)"
  then show "present n c" by (intro text_to_present [of n c]) simp_all
next
  assume "\<forall>n\<in>set directive_names. \<not> present n c"
  then show "MarshalText c = ([], None)" by (rule nothing_present)
next
  show "snd (MarshalText c) = None" by (simp add: MarshalText_def)
qed

text \<open>
  A policy whose only token is the name of another directive: the text has the name
  \<open>img-src\<close>, and the directive \<open>img-src\<close> is not present.
\<close>

theorem C5_name_in_token_counterexample:
  "sublist imgSrc (fst (MarshalText (CSP_zero\<lparr>DefaultSrc := [''img-src'']\<rparr>)))
   \<and> \<not> present imgSrc (CSP_zero\<lparr>DefaultSrc := [''img-src'']\<rparr>)"
  by code_simp

text \<open>The default policy has \<open>img-src\<close>; the zero policy has no directive.\<close>

theorem C5_presence_witness:
  "present imgSrc Default
   \<and> sublist imgSrc (fst (MarshalText Default))
   \<and> list_all (\<lambda>t. \<not> sublist imgSrc t) (policy_values Default)
   \<and> list_all (\<lambda>n. \<not> present n CSP_zero) directive_names
   \<and> MarshalText CSP_zero = ([], None)"
proof -
  have h1: "present imgSrc Default" by code_simp
  have h2: "imgSrc \<in> set directive_names" by code_simp
  have h3: "\<forall>t\<in>set (policy_values Default). \<not> sublist imgSrc t" by code_simp
  have h4: "\<forall>n\<in>set directive_names. \<not> present n CSP_zero" by code_simp
  show ?thesis
    using h1 h2 h3 h4 C5_presence [of imgSrc Default] C5_presence [of imgSrc CSP_zero]
    by (simp add: list_all_iff)
qed

section \<open>Encoding and decoding again\<close>

lemma clean_tokenD:
  assumes "clean_token t"
  shows "t \<noteq> []" "CHR '' '' \<notin> set t" "CHR '';'' \<notin> set t" "firstSpace t = 0" "lastSpace t = 0"
  using assms TrimSpace_fixed [of t] by (simp_all add: clean_token_def clean_scalar_def)

lemma set_Join: "set (Join l sep) \<subseteq> (\<Union>t\<in>set l. set t) \<union> set sep"
  by (induction l sep rule: Join.induct) auto

lemma Join_clean:
  assumes "l \<noteq> []" and "\<forall>t\<in>set l. clean_token t"
  shows "Join l '' '' \<noteq> []" "CHR '';'' \<notin> set (Join l '' '')" "firstSpace (Join l '' '') = 0"
    "lastSpace (Join l '' '') = 0" "Split (Join l '' '') CHR '' '' = l"
proof -
  from assms(1) obtain t ts where l: "l = t # ts" by (cases l) auto
  with assms(2) have t: "clean_token t" by simp
  have J: "Join l '' '' = (if ts = [] then t else t @ CHR '' '' # Join ts '' '')"
    using l by (simp add: Join_Cons)
  with t show "Join l '' '' \<noteq> []" by (simp add: clean_tokenD)
  from J t show "firstSpace (Join l '' '') = 0"
    by (simp add: clean_tokenD firstSpace_append_space)
  show "CHR '';'' \<notin> set (Join l '' '')"
    using set_Join [of l "'' ''"] assms(2) by (auto simp: clean_tokenD)
  from assms(1) obtain us u where r: "l = us @ [u]" by (cases l rule: rev_cases) auto
  with assms(2) have u: "clean_token u" by simp
  have "Join l '' '' = (if us = [] then u else Join us '' '' @ CHR '' '' # u)"
    using r by (simp add: Join_snoc)
  with u show "lastSpace (Join l '' '') = 0"
    by (simp add: clean_tokenD lastSpace_space_append)
  from assms show "Split (Join l '' '') CHR '' '' = l"
    by (intro Split_Join) (auto simp: clean_tokenD)
qed

lemma slot_clean:
  assumes tok: "\<forall>t\<in>set (policy_tokens P). clean_token t"
    and sc: "clean_scalar (ReportTo P)"
    and s: "slot_of n P = Some s" "slot_present s"
  shows "slot_text s \<noteq> []" "CHR '';'' \<notin> set (slot_text s)" "firstSpace (slot_text s) = 0"
    "lastSpace (slot_text s) = 0" "slot_decode n (slot_text s) = s"
proof -
  have "slot_text s \<noteq> [] \<and> CHR '';'' \<notin> set (slot_text s) \<and> firstSpace (slot_text s) = 0
      \<and> lastSpace (slot_text s) = 0 \<and> slot_decode n (slot_text s) = s"
  proof (cases s)
    case (SourceSlot l)
    with s have l: "l \<noteq> []" "set l \<subseteq> set (policy_tokens P)" "n \<noteq> reportTo"
      by (simp_all add: slot_present_def slot_values slot_kind)
    with tok have "\<forall>t\<in>set l. clean_token t" by blast
    with l(1) show ?thesis
      using SourceSlot l(3) by (simp add: slot_text_def slot_decode_def Join_clean)
  next
    case (ScalarSlot v)
    with s have v: "v \<noteq> []" "v = ReportTo P" "n = reportTo"
      by (simp_all add: slot_present_def slot_values slot_kind)
    with sc have "CHR '';'' \<notin> set v" "TrimSpace v = v" by (simp_all add: clean_scalar_def)
    with v(1,3) show ?thesis
      using ScalarSlot TrimSpace_fixed [of v] by (simp add: slot_text_def slot_decode_def)
  qed
  then show "slot_text s \<noteq> []" "CHR '';'' \<notin> set (slot_text s)" "firstSpace (slot_text s) = 0"
    "lastSpace (slot_text s) = 0" "slot_decode n (slot_text s) = s" by simp_all
qed

lemma TrimSpace_space: "TrimSpace (CHR '' '' # e) = TrimSpace e"
proof -
  have "firstSpace (CHR '' '' # e) = 1" by (simp add: firstSpace_def asciiSpace_def)
  then have "TrimLeft (CHR '' '' # e) = TrimLeft e" by (simp add: TrimLeft_step)
  then show ?thesis by (simp add: TrimSpace_def)
qed

lemma segment_kv_entry:
  assumes "n \<in> set directive_names" and "txt \<noteq> []" and "firstSpace txt = 0" and "lastSpace txt = 0"
  shows "segment_kv (n @ CHR '' '' # txt) = Some (n, txt)"
    and "segment_kv (CHR '' '' # n @ CHR '' '' # txt) = Some (n, txt)"
proof -
  have e: "TrimSpace (n @ CHR '' '' # txt) = n @ CHR '' '' # txt"
    using assms by (intro TrimSpace_id) (simp_all add: firstSpace_name lastSpace_space_append)
  have sp: "SplitN (n @ CHR '' '' # txt) CHR '' '' 2 = [n, txt]"
    using assms(1) by (simp add: numeral_2_eq_2 SplitN2_append name_props)
  have t: "TrimSpace txt = txt" using assms by (simp add: TrimSpace_id)
  from e sp t assms(1) show "segment_kv (n @ CHR '' '' # txt) = Some (n, txt)"
    by (simp add: segment_kv_def name_props)
  from e sp t assms(1) show "segment_kv (CHR '' '' # n @ CHR '' '' # txt) = Some (n, txt)"
    by (simp add: segment_kv_def TrimSpace_space name_props)
qed

lemma entry_good:
  assumes tok: "\<forall>t\<in>set (policy_tokens P). clean_token t"
    and sc: "clean_scalar (ReportTo P)"
    and e: "e \<in> set (policy_entry P n)"
  shows "\<exists>s. slot_of n P = Some s \<and> slot_present s \<and> n \<in> set directive_names
      \<and> policy_entry P n = [e] \<and> e = n @ CHR '' '' # slot_text s
      \<and> segment_kv e = Some (n, slot_text s)
      \<and> segment_kv (CHR '' '' # e) = Some (n, slot_text s)
      \<and> slot_decode n (slot_text s) = s \<and> CHR '';'' \<notin> set e \<and> lastSpace e = 0"
proof -
  from e obtain s where s: "slot_of n P = Some s" "slot_present s" "e = n @ CHR '' '' # slot_text s"
    using policy_entry_cases by blast
  then have n: "n \<in> set directive_names" by (simp add: slot_of_Some_name)
  note c = slot_clean [OF tok sc s(1,2)]
  have "segment_kv e = Some (n, slot_text s)" "segment_kv (CHR '' '' # e) = Some (n, slot_text s)"
    using segment_kv_entry [OF n c(1) c(3) c(4)] s(3) by simp_all
  moreover have "CHR '';'' \<notin> set e" using s(3) c(2) n by (simp add: name_props)
  moreover have "lastSpace e = 0" using s(3) c(1,4) by (simp add: lastSpace_space_append)
  moreover have "policy_entry P n = [e]" using s by (simp add: policy_entry_present)
  ultimately show ?thesis using s n c(5) by simp
qed

lemma policies_good:
  assumes tok: "\<forall>t\<in>set (policy_tokens P). clean_token t"
    and sc: "clean_scalar (ReportTo P)"
    and e: "e \<in> set (MarshalText_policies P)"
  shows "CHR '';'' \<notin> set e" "lastSpace e = 0" "segment_kv (CHR '' '' # e) = segment_kv e"
proof -
  from e obtain n where "e \<in> set (policy_entry P n)" unfolding policies_mem by blast
  from entry_good [OF tok sc this]
  show "CHR '';'' \<notin> set e" "lastSpace e = 0" "segment_kv (CHR '' '' # e) = segment_kv e"
    by auto
qed

lemma foldl_map_space:
  "\<forall>e\<in>set es. segment_kv (CHR '' '' # e) = segment_kv e \<Longrightarrow>
   foldl UnmarshalText_segment c (map ((#) CHR '' '') es) = foldl UnmarshalText_segment c es"
  by (induction es arbitrary: c) (simp_all add: segment_eq)

lemma lastSpace_Join:
  assumes "es \<noteq> []" and "\<forall>e\<in>set es. lastSpace e = 0 \<and> e \<noteq> []"
  shows "lastSpace (Join es ''; '') = 0"
proof -
  from assms(1) obtain us u where r: "es = us @ [u]" by (cases es rule: rev_cases) auto
  with assms(2) have u: "lastSpace u = 0" "u \<noteq> []" by simp_all
  have "Join es ''; '' = (if us = [] then u else (Join us ''; '' @ '';'') @ CHR '' '' # u)"
    using r by (simp add: Join_snoc)
  with u show ?thesis by (simp add: lastSpace_space_append del: append_assoc)
qed

lemma decode_encoded:
  assumes tok: "\<forall>t\<in>set (policy_tokens P). clean_token t"
    and sc: "clean_scalar (ReportTo P)"
  shows "fst (UnmarshalText c (fst (MarshalText P))) = foldl UnmarshalText_segment c (MarshalText_policies P)"
proof (cases "MarshalText_policies P = []")
  case True
  then show ?thesis
    by (simp add: MarshalText_def UnmarshalText_def TrimSpace_def TrimLeft_id TrimRight_id segment_eq)
next
  case False
  let ?es = "MarshalText_policies P"
  note g = policies_good [OF tok sc]
  have ne: "\<forall>e\<in>set ?es. lastSpace e = 0 \<and> e \<noteq> []"
  proof
    fix e assume e: "e \<in> set ?es"
    then obtain n where "e \<in> set (policy_entry P n)" unfolding policies_mem by blast
    from entry_good [OF tok sc this] have "e \<noteq> []" by auto
    with g(2) [OF e] show "lastSpace e = 0 \<and> e \<noteq> []" by simp
  qed
  have "lastSpace (Join ?es ''; '') = 0" using False ne by (rule lastSpace_Join)
  then have t: "fst (MarshalText P) = Join ?es ''; ''"
    by (simp add: MarshalText_def TrimSpace_def TrimLeft_policies TrimRight_id)
  have "Split (Join ?es ''; '') CHR '';'' = hd ?es # map ((#) CHR '' '') (tl ?es)"
    using False g(1) by (intro Split_Join2) simp_all
  moreover have "foldl UnmarshalText_segment (UnmarshalText_segment c (hd ?es)) (map ((#) CHR '' '') (tl ?es))
      = foldl UnmarshalText_segment (UnmarshalText_segment c (hd ?es)) (tl ?es)"
    using g(3) False by (intro foldl_map_space) (auto dest: list.set_sel(2))
  moreover have "foldl UnmarshalText_segment c ?es
      = foldl UnmarshalText_segment (UnmarshalText_segment c (hd ?es)) (tl ?es)"
    using False by (cases ?es) simp_all
  ultimately show ?thesis using t by (simp add: UnmarshalText_def)
qed

lemma slot_of_None: "n \<notin> set directive_names \<Longrightarrow> slot_of n c = None"
  by (simp add: slot_of_def directive_names_def)

lemma slot_of_zero:
  "n \<in> set directive_names \<Longrightarrow>
   slot_of n CSP_zero = Some (if n = reportTo then ScalarSlot [] else SourceSlot [])"
  by (auto simp: directive_names_def slot_of_def names_neq CSP_zero_def)

lemma absent_zero:
  assumes "\<not> present n P"
  shows "slot_of n P = slot_of n CSP_zero"
proof (cases "slot_of n P")
  case None
  then have "n \<notin> set directive_names"
    by (auto simp: directive_names_def slot_of_def names_neq)
  with None show ?thesis by (simp add: slot_of_None)
next
  case (Some s)
  then have n: "n \<in> set directive_names" by (rule slot_of_Some_name)
  from Some assms have a: "\<not> slot_present s" by (simp add: present_def)
  show ?thesis
  proof (cases s)
    case (SourceSlot l)
    with Some a have "l = []" "n \<noteq> reportTo" by (simp_all add: slot_present_def slot_kind)
    with Some SourceSlot n show ?thesis by (simp add: slot_of_zero)
  next
    case (ScalarSlot v)
    with Some a have "v = []" "n = reportTo" by (simp_all add: slot_present_def slot_kind)
    with Some ScalarSlot n show ?thesis by (simp add: slot_of_zero)
  qed
qed

lemma segment_names_entries:
  assumes tok: "\<forall>t\<in>set (policy_tokens P). clean_token t"
    and sc: "clean_scalar (ReportTo P)"
  shows "set (segment_names (concat (map (policy_entry P) ns))) \<subseteq> {n \<in> set ns. present n P}"
proof (induction ns)
  case Nil
  then show ?case by simp
next
  case (Cons n ns)
  show ?case
  proof (cases "policy_entry P n = []")
    case True
    with Cons show ?thesis by auto
  next
    case False
    then obtain e where "e \<in> set (policy_entry P n)" by (cases "policy_entry P n") auto
    from entry_good [OF tok sc this] obtain s where
      "policy_entry P n = [e]" "segment_kv e = Some (n, slot_text s)" "slot_of n P = Some s" "slot_present s"
      by blast
    then have "segment_names (policy_entry P n) = [n]" "present n P"
      by (simp_all add: segment_names_Cons present_def)
    with Cons show ?thesis by auto
  qed
qed

lemma round_trip_slot:
  assumes tok: "\<forall>t\<in>set (policy_tokens P). clean_token t"
    and sc: "clean_scalar (ReportTo P)"
    and n: "n \<in> set directive_names"
  shows "slot_of n (foldl UnmarshalText_segment CSP_zero (MarshalText_policies P)) = slot_of n P"
proof (cases "present n P")
  case False
  have "n \<notin> set (segment_names (MarshalText_policies P))"
    using segment_names_entries [OF tok sc, of directive_names] False
    by (auto simp: policies_concat)
  then have "slot_of n (foldl UnmarshalText_segment CSP_zero (MarshalText_policies P)) = slot_of n CSP_zero"
    by (rule foldl_frame)
  with False show ?thesis by (simp add: absent_zero)
next
  case True
  then have "policy_entry P n \<noteq> []"
    by (auto simp: present_def policy_entry_def split: option.splits)
  then obtain e where "e \<in> set (policy_entry P n)" by (cases "policy_entry P n") auto
  from entry_good [OF tok sc this] obtain s where s:
    "policy_entry P n = [e]" "segment_kv e = Some (n, slot_text s)" "slot_of n P = Some s"
    "slot_decode n (slot_text s) = s"
    by blast
  from n obtain xs ys where sp: "directive_names = xs @ n # ys" "n \<notin> set ys"
    by (meson split_list_last)
  let ?ps = "concat (map (policy_entry P) xs)"
  let ?qs = "concat (map (policy_entry P) ys)"
  have "concat (map (policy_entry P) directive_names) = concat (map (policy_entry P) (xs @ n # ys))"
    by (simp only: sp(1))
  then have es: "MarshalText_policies P = ?ps @ e # ?qs"
    using s(1) by (simp add: policies_concat)
  have "n \<notin> set (segment_names ?qs)"
    using segment_names_entries [OF tok sc, of ys] sp(2) by auto
  with s(2) n have "slot_of n (foldl UnmarshalText_segment CSP_zero (?ps @ e # ?qs))
      = Some (slot_decode n (slot_text s))"
    by (intro foldl_last_wins)
  with es s(3,4) show ?thesis by simp
qed

lemma slot_fields:
  assumes "\<forall>n\<in>set directive_names. slot_of n a = slot_of n b"
  shows "ChildSrc a = ChildSrc b" "ConnectSrc a = ConnectSrc b" "DefaultSrc a = DefaultSrc b"
    "FontSrc a = FontSrc b" "FrameSrc a = FrameSrc b" "ImgSrc a = ImgSrc b"
    "ManifestSrc a = ManifestSrc b" "MediaSrc a = MediaSrc b" "ObjectSrc a = ObjectSrc b"
    "ScriptSrc a = ScriptSrc b" "StyleSrc a = StyleSrc b" "WorkerSrc a = WorkerSrc b"
    "ReportTo a = ReportTo b"
proof -
  have "slot_of childSrc a = slot_of childSrc b" using assms by (simp add: directive_names_def)
  then show "ChildSrc a = ChildSrc b" by (simp add: slot_of_def)
  have "slot_of connectSrc a = slot_of connectSrc b" using assms by (simp add: directive_names_def)
  then show "ConnectSrc a = ConnectSrc b" by (simp add: slot_of_def names_neq)
  have "slot_of defaultSrc a = slot_of defaultSrc b" using assms by (simp add: directive_names_def)
  then show "DefaultSrc a = DefaultSrc b" by (simp add: slot_of_def names_neq)
  have "slot_of fontSrc a = slot_of fontSrc b" using assms by (simp add: directive_names_def)
  then show "FontSrc a = FontSrc b" by (simp add: slot_of_def names_neq)
  have "slot_of frameSrc a = slot_of frameSrc b" using assms by (simp add: directive_names_def)
  then show "FrameSrc a = FrameSrc b" by (simp add: slot_of_def names_neq)
  have "slot_of imgSrc a = slot_of imgSrc b" using assms by (simp add: directive_names_def)
  then show "ImgSrc a = ImgSrc b" by (simp add: slot_of_def names_neq)
  have "slot_of manifestSrc a = slot_of manifestSrc b" using assms by (simp add: directive_names_def)
  then show "ManifestSrc a = ManifestSrc b" by (simp add: slot_of_def names_neq)
  have "slot_of mediaSrc a = slot_of mediaSrc b" using assms by (simp add: directive_names_def)
  then show "MediaSrc a = MediaSrc b" by (simp add: slot_of_def names_neq)
  have "slot_of objectSrc a = slot_of objectSrc b" using assms by (simp add: directive_names_def)
  then show "ObjectSrc a = ObjectSrc b" by (simp add: slot_of_def names_neq)
  have "slot_of scriptSrc a = slot_of scriptSrc b" using assms by (simp add: directive_names_def)
  then show "ScriptSrc a = ScriptSrc b" by (simp add: slot_of_def names_neq)
  have "slot_of styleSrc a = slot_of styleSrc b" using assms by (simp add: directive_names_def)
  then show "StyleSrc a = StyleSrc b" by (simp add: slot_of_def names_neq)
  have "slot_of workerSrc a = slot_of workerSrc b" using assms by (simp add: directive_names_def)
  then show "WorkerSrc a = WorkerSrc b" by (simp add: slot_of_def names_neq)
  have "slot_of reportTo a = slot_of reportTo b" using assms by (simp add: directive_names_def)
  then show "ReportTo a = ReportTo b" by (simp add: slot_of_def names_neq)
qed

text \<open>
  C1, as the code has it: for every policy whose source tokens are not empty and whose
  tokens and scalar have no space and no semicolon in them and no white space at either
  end, decoding the encoded text into the zero policy gives the policy back, field by
  field, with the report-only flag and the wrapped handler at their zero values, and the
  nil error.
\<close>

theorem C1_round_trip:
  assumes "\<forall>t\<in>set (policy_tokens P). clean_token t" and "clean_scalar (ReportTo P)"
  shows "UnmarshalText CSP_zero (fst (MarshalText P)) = (P\<lparr>ReportOnly := False, CSP_h := None\<rparr>, None)"
proof -
  let ?c = "fst (UnmarshalText CSP_zero (fst (MarshalText P)))"
  have d: "?c = foldl UnmarshalText_segment CSP_zero (MarshalText_policies P)"
    using assms by (rule decode_encoded)
  have "\<forall>n\<in>set directive_names. slot_of n ?c = slot_of n P"
    using round_trip_slot [OF assms] d by simp
  note f = slot_fields [OF this]
  have o: "ReportOnly ?c = False" "CSP_h ?c = None"
    using d by (simp_all add: foldl_other CSP_zero_def)
  have "?c = P\<lparr>ReportOnly := False, CSP_h := None\<rparr>"
    by (rule CSP.equality) (simp_all add: f o)
  moreover have "snd (UnmarshalText CSP_zero (fst (MarshalText P))) = None"
    by (simp add: UnmarshalText_def)
  ultimately show ?thesis by (simp add: prod_eq_iff)
qed

text \<open>A policy with two directives and the scalar.\<close>

theorem C1_round_trip_witness:
  "list_all clean_token
     (policy_tokens (CSP_zero\<lparr>DefaultSrc := [SourceSelf, ''*.mailsite.com''], ImgSrc := [SourceAny],
        ReportTo := ''endpoint''\<rparr>))
   \<and> clean_scalar ''endpoint''
   \<and> UnmarshalText CSP_zero
       (fst (MarshalText (CSP_zero\<lparr>DefaultSrc := [SourceSelf, ''*.mailsite.com''], ImgSrc := [SourceAny],
          ReportTo := ''endpoint''\<rparr>)))
     = (CSP_zero\<lparr>DefaultSrc := [SourceSelf, ''*.mailsite.com''], ImgSrc := [SourceAny],
          ReportTo := ''endpoint''\<rparr>, None)"
proof -
  let ?P = "CSP_zero\<lparr>DefaultSrc := [SourceSelf, ''*.mailsite.com''], ImgSrc := [SourceAny],
    ReportTo := ''endpoint''\<rparr>"
  have h1: "\<forall>t\<in>set (policy_tokens ?P). clean_token t" by code_simp
  have h2: "clean_scalar (ReportTo ?P)" by code_simp
  have z: "?P\<lparr>ReportOnly := False, CSP_h := None\<rparr> = ?P" by (simp add: CSP_zero_def)
  show ?thesis
    using C1_round_trip [OF h1 h2] h1 h2 z by (simp add: list_all_iff)
qed

text \<open>
  A token that starts with a tab has no space and no semicolon in it, and comes back
  without the tab.
\<close>

theorem C1_leading_tab_counterexample:
  "list_all (\<lambda>t. t \<noteq> [] \<and> CHR '' '' \<notin> set t \<and> CHR '';'' \<notin> set t)
     (policy_values (CSP_zero\<lparr>DefaultSrc := [ [CHR 0x09, CHR ''x''] ], ReportTo := ''endpoint''\<rparr>))
   \<and> DefaultSrc (fst (UnmarshalText CSP_zero
        (fst (MarshalText (CSP_zero\<lparr>DefaultSrc := [ [CHR 0x09, CHR ''x''] ], ReportTo := ''endpoint''\<rparr>)))))
      = [''x'']
   \<and> DefaultSrc (CSP_zero\<lparr>DefaultSrc := [ [CHR 0x09, CHR ''x''] ], ReportTo := ''endpoint''\<rparr>)
      \<noteq> [''x'']"
  by code_simp

end
